theory Spec2Isabelle
  imports Complex_Main "HOL-Library.Word"
begin

unbundle bit_operations_syntax

section \<open>Peripheral connectivity (BluetoothContext)\<close>

text \<open>
  The provider component keeps its state in React state cells. The model is one record
  of those cells; every handler takes the record and returns the updated one. A handler
  is taken to run against the cells of the current render, and calls are sequential: one
  call has finished (and the component has rendered again) before the next one starts.
  What the BLE library and the key-value store answer is an input of each call.
\<close>

datatype bt_connection_state = DISCONNECTED | CONNECTING | CONNECTED | SCANNING | ERROR

record device =
  dev_id :: string
  dev_name :: string
  rssi :: int

record bluetooth =
  isBluetoothEnabled :: bool
  isInitialized :: bool
  isScanning :: bool
  connectionState :: bt_connection_state
  bt_error :: "string option"
  discoveredDevices :: "device list"
  connectedDevice :: "device option"
  previousDevices :: "device list"
  stored_devices :: "device list option"

text \<open>
  The answers of the collaborators during one call: \<open>None\<close> is a resolved promise,
  \<open>Some msg\<close> a rejection whose error carries the message \<open>msg\<close>.
\<close>

record ble_env =
  ble_stopScan :: "string option"
  ble_connect :: "string option"
  ble_retrieveServices :: "string option"
  ble_disconnect :: "string option"
  storage_setItem :: "string option"

datatype js_error = Error string

text \<open>
  A device's \<open>id\<close> and \<open>name\<close> are the fields \<open>dev_id\<close> and \<open>dev_name\<close>,
  the provider's \<open>error\<close> cell is \<open>bt_error\<close>, and \<open>stored_devices\<close> is what
  the store holds under the key of the device history. \<open>connectToDevice\<close> returns
  the rejection or the device together with the new state.
\<close>

definition bt_initial :: bluetooth where
  "bt_initial = \<lparr> isBluetoothEnabled = False, isInitialized = False, isScanning = False,
      connectionState = DISCONNECTED, bt_error = None, discoveredDevices = [],
      connectedDevice = None, previousDevices = [], stored_devices = None \<rparr>"

definition saveDeviceToHistory :: "ble_env \<Rightarrow> device \<Rightarrow> bluetooth \<Rightarrow> bluetooth" where
  "saveDeviceToHistory env device s =
     (let updatedDevices = filter (\<lambda>d. dev_id d \<noteq> dev_id device) (previousDevices s);
          newDevicesList = take 10 (device # updatedDevices);
          s1 = s\<lparr>previousDevices := newDevicesList\<rparr>
      in case storage_setItem env of
           None \<Rightarrow> s1\<lparr>stored_devices := Some newDevicesList\<rparr>
         | Some _ \<Rightarrow> s1)"

definition stopScan :: "ble_env \<Rightarrow> bluetooth \<Rightarrow> bluetooth" where
  "stopScan env s =
     (if \<not> isScanning s then s
      else case ble_stopScan env of
             None \<Rightarrow> s\<lparr>isScanning := False,
                        connectionState :=
                          (if connectedDevice s \<noteq> None then CONNECTED else DISCONNECTED)\<rparr>
           | Some _ \<Rightarrow> s\<lparr>isScanning := False, bt_error := Some ''Failed to stop scanning''\<rparr>)"

definition connect_failed :: "string \<Rightarrow> bluetooth \<Rightarrow> (js_error + device) \<times> bluetooth" where
  "connect_failed msg s =
     (Inl (Error msg),
      s\<lparr>bt_error := Some (''Failed to connect to device: '' @ msg), connectionState := ERROR\<rparr>)"

definition connectToDevice ::
  "ble_env \<Rightarrow> string \<Rightarrow> bluetooth \<Rightarrow> (js_error + device) \<times> bluetooth" where
  "connectToDevice env deviceId s =
     (if \<not> isBluetoothEnabled s \<or> \<not> isInitialized s
      then (Inl (Error ''Bluetooth is not available''), s)
      else
        let s1 = s\<lparr>connectionState := CONNECTING, bt_error := None\<rparr>;
            s2 = (if isScanning s1 then stopScan env s1 else s1)
        in case find (\<lambda>d. dev_id d = deviceId) (discoveredDevices s2 @ previousDevices s2) of
             None \<Rightarrow> connect_failed ''Device not found'' s2
           | Some device \<Rightarrow>
               (case ble_connect env of
                  Some msg \<Rightarrow> connect_failed msg s2
                | None \<Rightarrow>
                    (case ble_retrieveServices env of
                       Some msg \<Rightarrow> connect_failed msg s2
                     | None \<Rightarrow>
                         (Inr device,
                          saveDeviceToHistory env device
                            (s2\<lparr>connectedDevice := Some device,
                                connectionState := CONNECTED\<rparr>)))))"

definition disconnectFromDevice :: "ble_env \<Rightarrow> string \<Rightarrow> bluetooth \<Rightarrow> bluetooth" where
  "disconnectFromDevice env deviceId s =
     (if deviceId = [] \<or> connectedDevice s = None
         \<or> map_option dev_id (connectedDevice s) \<noteq> Some deviceId
      then s
      else case ble_disconnect env of
             None \<Rightarrow> s\<lparr>connectedDevice := None, connectionState := DISCONNECTED\<rparr>
           | Some _ \<Rightarrow> s\<lparr>bt_error := Some ''Failed to disconnect from device'',
                         connectedDevice := None, connectionState := DISCONNECTED\<rparr>)"

section \<open>Network session (WebSocketService) and conversation state (AppContext)\<close>

text \<open>
  \<open>Date.now()\<close> is an input: the world holds the millisecond the next call will
  read and the list of lapses by which the clock moves on after each read (no lapse once
  the list is used up). One reading more or less in a handler matters for message ids, so
  every \<open>Date.now()\<close> of the source is one \<open>Date_now\<close> of the model, in the
  source's evaluation order.

  The service calls back into the provider through the four callbacks that
  \<open>initWebSocket\<close> registers on mount; the model calls them directly. A socket event
  reaches the service only from the current socket (\<open>disconnect\<close> detaches the
  handlers of the old one). \<open>wire\<close> lists the frames the socket accepted, oldest
  first; \<open>send_calls\<close> logs each call of \<open>WebSocketService.send\<close> with the value
  it returned.
\<close>

datatype ready_state = WS_CONNECTING | WS_OPEN | WS_CLOSING | WS_CLOSED

record socket =
  readyState :: ready_state
  send_raises :: bool

datatype outbound =
    AudioMessage string string string string string nat string
  | TextMessage string string string string nat string
  | Ping

text \<open>
  An inbound frame, as \<open>JSON.parse\<close> sees it: text that is no JSON, the value
  \<open>null\<close>, an object of one of the three types the provider knows, or any other value.
\<close>

datatype inbound =
    Malformed
  | JsonNull
  | AiResponse string "string option" "string option" "string option"
  | Pong
  | ErrorMessage string
  | OtherJson

datatype ctor_result = CtorRaises | Created bool

record websocket =
  socket :: "socket option"
  url :: "string option"
  connected :: bool
  connecting :: bool
  reconnectTimeout :: "nat option"
  pingInterval :: "nat option"
  lastPingTime :: "nat option"
  wire :: "outbound list"
  send_calls :: "(outbound \<times> bool) list"

record message =
  msg_id :: string
  msg_text :: string
  isUser :: bool
  msg_type :: string
  timestamp :: nat

datatype pending =
    PendingAudio string string nat string
  | PendingText string nat string

record settings =
  userId :: "string option"
  userName :: string
  aiVoice :: string

record world =
  isOnline :: bool
  wsConnected :: bool
  settings :: settings
  messages :: "message list"
  isProcessingAudio :: bool
  pendingMessages :: "pending list"
  isSpeaking :: bool
  speakingTimer :: bool
  lastTranscription :: string
  service :: websocket
  now :: nat
  lapses :: "nat list"

definition Date_now :: "world \<Rightarrow> nat \<times> world" where
  "Date_now w =
     (now w, w\<lparr>now := now w + (case lapses w of [] \<Rightarrow> 0 | d # _ \<Rightarrow> d),
               lapses := tl (lapses w)\<rparr>)"

definition digit_char :: "nat \<Rightarrow> char" where
  "digit_char d =
     (if d = 0 then CHR ''0'' else if d = 1 then CHR ''1'' else if d = 2 then CHR ''2''
      else if d = 3 then CHR ''3'' else if d = 4 then CHR ''4'' else if d = 5 then CHR ''5''
      else if d = 6 then CHR ''6'' else if d = 7 then CHR ''7'' else if d = 8 then CHR ''8''
      else CHR ''9'')"

function toString :: "nat \<Rightarrow> string" where
  "toString n = (if n < 10 then [digit_char n] else toString (n div 10) @ [digit_char (n mod 10)])"
  by pat_completeness auto
termination
  by (relation "measure (\<lambda>n. n)") auto

declare toString.simps [simp del]

definition truthy :: "string \<Rightarrow> bool" where
  "truthy s = (s \<noteq> [])"

definition or_else :: "string \<Rightarrow> string \<Rightarrow> string" where
  "or_else s dflt = (if truthy s then s else dflt)"

definition user_or_guest :: "settings \<Rightarrow> string" where
  "user_or_guest st = (case userId st of None \<Rightarrow> ''guest'' | Some u \<Rightarrow> or_else u ''guest'')"

subsection \<open>WebSocketService\<close>

text \<open>
  The static fields of the class are the record \<open>websocket\<close>. Its methods
  \<open>send\<close>, \<open>connect\<close> and \<open>disconnect\<close> are \<open>ws_send\<close>,
  \<open>ws_connect\<close> and \<open>ws_disconnect\<close> here. \<open>connect\<close> is given what
  \<open>new WebSocket(url)\<close> does: it raises, or it yields a socket on which a later send
  raises or not. \<open>reconnectTimeout\<close> and \<open>pingInterval\<close> hold the delay and the
  period of the running timer.
\<close>

definition ws_send :: "outbound \<Rightarrow> websocket \<Rightarrow> bool \<times> websocket" where
  "ws_send m svc =
     (case socket svc of
        None \<Rightarrow> (False, svc\<lparr>send_calls := send_calls svc @ [(m, False)]\<rparr>)
      | Some sk \<Rightarrow>
          if readyState sk \<noteq> WS_OPEN
          then (False, svc\<lparr>send_calls := send_calls svc @ [(m, False)]\<rparr>)
          else if send_raises sk
          then (False, svc\<lparr>send_calls := send_calls svc @ [(m, False)]\<rparr>)
          else (True, svc\<lparr>wire := wire svc @ [m], send_calls := send_calls svc @ [(m, True)]\<rparr>))"

definition ws_disconnect :: "websocket \<Rightarrow> websocket" where
  "ws_disconnect svc =
     svc\<lparr>connected := False, connecting := False, reconnectTimeout := None,
         pingInterval := None, socket := None\<rparr>"

definition scheduleReconnect :: "websocket \<Rightarrow> websocket" where
  "scheduleReconnect svc = svc\<lparr>reconnectTimeout := Some 5000\<rparr>"

definition ws_connect :: "ctor_result \<Rightarrow> websocket \<Rightarrow> websocket" where
  "ws_connect ctor svc =
     (if connecting svc \<or> url svc = None \<or> url svc = Some [] then svc
      else
        let svc1 = (ws_disconnect svc)\<lparr>connecting := True\<rparr>
        in case ctor of
             Created r \<Rightarrow> svc1\<lparr>socket := Some \<lparr>readyState = WS_CONNECTING, send_raises = r\<rparr>\<rparr>
           | CtorRaises \<Rightarrow> scheduleReconnect (svc1\<lparr>connecting := False\<rparr>))"

definition upd_service :: "(websocket \<Rightarrow> websocket) \<Rightarrow> world \<Rightarrow> world" where
  "upd_service f w = w\<lparr>service := f (service w)\<rparr>"

definition WebSocketService_send :: "outbound \<Rightarrow> world \<Rightarrow> bool \<times> world" where
  "WebSocketService_send m w =
     (case ws_send m (service w) of (ok, svc) \<Rightarrow> (ok, w\<lparr>service := svc\<rparr>))"

definition startPingInterval :: "world \<Rightarrow> world" where
  "startPingInterval w =
     (case Date_now (upd_service (\<lambda>svc. svc\<lparr>pingInterval := None\<rparr>) w) of
        (t, w1) \<Rightarrow> upd_service (\<lambda>svc. svc\<lparr>lastPingTime := Some t, pingInterval := Some 30000\<rparr>) w1)"

subsection \<open>AppContext\<close>

text \<open>
  A message's \<open>id\<close>, \<open>text\<close> and \<open>type\<close> are the fields \<open>msg_id\<close>,
  \<open>msg_text\<close> and \<open>msg_type\<close>. \<open>x || y\<close> on strings is \<open>or_else\<close>: the
  empty string counts as absent. An entry of the queue is an audio entry or, with
  \<open>isText\<close> set, a text entry. Nothing inside the \<open>try\<close> blocks of the three
  senders can raise (\<open>send\<close> catches what the socket raises), so their \<open>catch\<close>
  branches are not reached and are left out.

  A state setter that is given a function runs it when React works off its queue of
  updates, after the handler has returned. The updates of one cell are applied in the
  order of the calls, so the cells end as if each had been applied at its call; but the
  \<open>Date.now()\<close> inside the function that appends to the queue of pending messages
  is read only then, after every read the handler itself makes.
\<close>

definition addMessage :: "string \<Rightarrow> bool \<Rightarrow> string \<Rightarrow> string option \<Rightarrow> world \<Rightarrow> string \<times> world" where
  "addMessage txt usr typ id_arg w =
     (case (case id_arg of
              None \<Rightarrow> (case Date_now w of (t, w1) \<Rightarrow> (toString t, w1))
            | Some i \<Rightarrow> (i, w)) of
        (i, w1) \<Rightarrow>
          (case Date_now w1 of
             (ts, w2) \<Rightarrow>
               (i, w2\<lparr>messages := messages w2 @
                      [\<lparr>msg_id = i, msg_text = txt, isUser = usr, msg_type = typ, timestamp = ts\<rparr>]\<rparr>)))"

definition set_text_by_id :: "string \<Rightarrow> string \<Rightarrow> message list \<Rightarrow> message list" where
  "set_text_by_id i txt ms = map (\<lambda>msg. if msg_id msg = i then msg\<lparr>msg_text := txt\<rparr> else msg) ms"

definition offline_notice :: string where
  "offline_notice = ''I'' @ [CHR 0x27] @ ''m currently offline. I'' @ [CHR 0x27] @
     ''ll process your message when I reconnect.''"

definition sendAudioToServer :: "string \<Rightarrow> string \<Rightarrow> world \<Rightarrow> string \<times> world" where
  "sendAudioToServer audioBase64 transcription w =
     (let w0 = w\<lparr>isProcessingAudio := True\<rparr> in
      case Date_now w0 of
        (unused_messageId, w1) \<Rightarrow>
          (case addMessage (or_else transcription ''Listening...'') True ''normal'' None w1 of
             (userMessageId, w2) \<Rightarrow>
               if wsConnected w
               then (case Date_now w2 of
                       (ts, w3) \<Rightarrow>
                         (userMessageId,
                          snd (WebSocketService_send
                                 (AudioMessage audioBase64 transcription (user_or_guest (settings w))
                                    (userName (settings w)) (aiVoice (settings w)) ts userMessageId)
                                 w3)))
               else (let w3 = w2\<lparr>messages := set_text_by_id userMessageId
                                       (or_else transcription
                                          ''Message saved for when connection is restored'')
                                       (messages w2)\<rparr>
                     in case addMessage offline_notice False ''system'' None w3 of
                          (_, w4) \<Rightarrow>
                            (case Date_now w4 of
                               (ts, w5) \<Rightarrow>
                                 (userMessageId,
                                  w5\<lparr>pendingMessages := pendingMessages w5 @
                                       [PendingAudio audioBase64 transcription ts userMessageId],
                                     isProcessingAudio := False\<rparr>)))))"

definition sendTextToServer :: "string \<Rightarrow> world \<Rightarrow> string \<times> world" where
  "sendTextToServer txt w =
     (case Date_now w of
        (unused_messageId, w1) \<Rightarrow>
          (case addMessage txt True ''normal'' None w1 of
             (userMessageId, w2) \<Rightarrow>
               if wsConnected w
               then (case Date_now w2 of
                       (ts, w3) \<Rightarrow>
                         (userMessageId,
                          snd (WebSocketService_send
                                 (TextMessage txt (user_or_guest (settings w))
                                    (userName (settings w)) (aiVoice (settings w)) ts userMessageId)
                                 w3)))
               else (case addMessage offline_notice False ''system'' None w2 of
                       (_, w3) \<Rightarrow>
                         (case Date_now w3 of
                            (ts, w4) \<Rightarrow>
                              (userMessageId,
                               w4\<lparr>pendingMessages := pendingMessages w4 @
                                    [PendingText txt ts userMessageId]\<rparr>)))))"

fun outbound_of :: "settings \<Rightarrow> pending \<Rightarrow> outbound" where
  "outbound_of st (PendingText txt ts mid) =
     TextMessage txt (user_or_guest st) (userName st) (aiVoice st) ts mid"
| "outbound_of st (PendingAudio a tr ts mid) =
     AudioMessage a (or_else tr []) (user_or_guest st) (userName st) (aiVoice st) ts mid"

definition processPendingMessages :: "world \<Rightarrow> world" where
  "processPendingMessages w =
     (if \<not> wsConnected w \<or> length (pendingMessages w) = 0 then w
      else
        case addMessage ''Processing your offline messages...'' False ''system'' None w of
          (_, w1) \<Rightarrow>
            (case pendingMessages w of
               [] \<Rightarrow> w1
             | firstPending # remainingPending \<Rightarrow>
                 (let w2 = w1\<lparr>pendingMessages := remainingPending\<rparr>;
                      w3 = snd (WebSocketService_send (outbound_of (settings w) firstPending) w2)
                  in w3\<lparr>isProcessingAudio := True\<rparr>)))"

definition clearConversation :: "world \<Rightarrow> world" where
  "clearConversation w = w\<lparr>messages := []\<rparr>"

definition handleWebSocketMessage :: "inbound \<Rightarrow> world \<Rightarrow> world" where
  "handleWebSocketMessage ev w =
     (case ev of
        Malformed \<Rightarrow> w
      | JsonNull \<Rightarrow> w
      | AiResponse txt audioBase64 transcription messageId \<Rightarrow>
          (let w1 = (case (transcription, messageId) of
                       (Some tr, Some mid) \<Rightarrow>
                         if truthy tr \<and> truthy mid
                         then w\<lparr>lastTranscription := tr,
                                messages := set_text_by_id mid tr (messages w)\<rparr>
                         else w
                     | _ \<Rightarrow> w)
           in case addMessage txt False ''normal'' None w1 of
                (_, w2) \<Rightarrow>
                  (let w3 = (case audioBase64 of
                               None \<Rightarrow> w2\<lparr>isSpeaking := False\<rparr>
                             | Some a \<Rightarrow>
                                 if truthy a then w2\<lparr>isSpeaking := True, speakingTimer := True\<rparr>
                                 else w2\<lparr>isSpeaking := False\<rparr>)
                   in w3\<lparr>isProcessingAudio := False\<rparr>))
      | Pong \<Rightarrow> w
      | ErrorMessage m \<Rightarrow>
          (case addMessage (''Error: '' @ m) False ''system'' None w of
             (_, w1) \<Rightarrow> w1\<lparr>isProcessingAudio := False\<rparr>)
      | OtherJson \<Rightarrow> w)"

subsection \<open>Socket events, as WebSocketService handles them with AppContext's callbacks\<close>

definition handleOpen :: "world \<Rightarrow> world" where
  "handleOpen w =
     (let w1 = upd_service (\<lambda>svc. svc\<lparr>connected := True, connecting := False\<rparr>) w;
          w2 = startPingInterval w1;
          w3 = w2\<lparr>wsConnected := True\<rparr>
      in snd (addMessage ''Connected to AI assistant'' False ''system'' None w3))"

definition handleMessage :: "inbound \<Rightarrow> world \<Rightarrow> world" where
  "handleMessage ev w =
     (let w1 = handleWebSocketMessage ev w
      in case ev of
           Pong \<Rightarrow> (case Date_now w1 of
                      (t, w2) \<Rightarrow> upd_service (\<lambda>svc. svc\<lparr>lastPingTime := Some t\<rparr>) w2)
         | _ \<Rightarrow> w1)"

definition handleClose :: "world \<Rightarrow> world" where
  "handleClose w =
     (let w1 = upd_service (\<lambda>svc. svc\<lparr>connected := False, connecting := False\<rparr>) w;
          w2 = w1\<lparr>wsConnected := False\<rparr>;
          w3 = (if isOnline w
                then snd (addMessage ''Disconnected from AI assistant'' False ''system'' None w2)
                else w2)
      in upd_service scheduleReconnect w3)"

definition transport_open :: "world \<Rightarrow> world" where
  "transport_open w =
     (case socket (service w) of
        None \<Rightarrow> w
      | Some sk \<Rightarrow>
          handleOpen (upd_service (\<lambda>svc. svc\<lparr>socket := Some (sk\<lparr>readyState := WS_OPEN\<rparr>)\<rparr>) w))"

definition unresponsive :: "nat option \<Rightarrow> nat \<Rightarrow> bool" where
  "unresponsive lastPing t =
     (case lastPing of None \<Rightarrow> False | Some l \<Rightarrow> l \<noteq> 0 \<and> int t - int l > 60000)"

definition pingTick :: "ctor_result \<Rightarrow> world \<Rightarrow> world" where
  "pingTick ctor w =
     (if pingInterval (service w) = None then w
      else case socket (service w) of
        None \<Rightarrow> w
      | Some sk \<Rightarrow>
          if readyState sk \<noteq> WS_OPEN then w
          else if send_raises sk then w
          else
            (let w1 = upd_service (\<lambda>svc. svc\<lparr>wire := wire svc @ [Ping]\<rparr>) w
             in case Date_now w1 of
                  (t, w2) \<Rightarrow>
                    if unresponsive (lastPingTime (service w2)) t
                    then upd_service (\<lambda>svc. ws_connect ctor (ws_disconnect svc)) w2
                    else w2))"

definition elapse :: "nat \<Rightarrow> world \<Rightarrow> world" where
  "elapse d w = w\<lparr>now := now w + d\<rparr>"

section \<open>Audio capture (AudioService) and the native audio module (AudioModule)\<close>

subsection \<open>AudioService: the silence timer\<close>

text \<open>
  One recording session of \<open>AudioService\<close>, on a virtual clock in milliseconds.
  \<open>silenceTimer\<close> holds the deadline of the pending timeout, \<open>None\<close> when none is
  pending (a handle of a timeout that has run is not told apart from no handle:
  \<open>clearTimeout\<close> on it does nothing). \<open>silence_calls\<close> counts the calls of the
  \<open>onSilenceDetected\<close> callback. The callback is the caller's; \<open>cb_stops\<close> says
  whether it stops the recording, as \<open>stopRecording\<close> does.
  A timeout whose deadline has come runs before an event of the same millisecond.
\<close>

record audio_service =
  isRecording :: bool
  silenceTimer :: "nat option"
  silence_calls :: nat

definition stopRecording_timer :: "audio_service \<Rightarrow> audio_service" where
  "stopRecording_timer s =
     (if \<not> isRecording s then s else s\<lparr>silenceTimer := None, isRecording := False\<rparr>)"

definition silence_timeout :: "bool \<Rightarrow> audio_service \<Rightarrow> audio_service" where
  "silence_timeout cb_stops s =
     (let s1 = s\<lparr>silenceTimer := None\<rparr>
      in if isRecording s1
         then (let s2 = s1\<lparr>silence_calls := silence_calls s1 + 1\<rparr>
               in if cb_stops then stopRecording_timer s2 else s2)
         else s1)"

definition run_timers :: "bool \<Rightarrow> nat \<Rightarrow> audio_service \<Rightarrow> audio_service" where
  "run_timers cb_stops t s =
     (case silenceTimer s of
        None \<Rightarrow> s
      | Some deadline \<Rightarrow> if deadline \<le> t then silence_timeout cb_stops s else s)"

definition on_data :: "real \<Rightarrow> nat \<Rightarrow> real \<Rightarrow> audio_service \<Rightarrow> audio_service" where
  "on_data threshold t energy s = s\<lparr>silenceTimer := Some (t + 2000)\<rparr>"

definition startRecording_session :: audio_service where
  "startRecording_session = \<lparr>isRecording = True, silenceTimer = None, silence_calls = 0\<rparr>"

text \<open>
  A session is a list of data frames \<open>(t, energy)\<close> in the order of their arrival;
  \<open>idle_until t\<close> lets the clock reach \<open>t\<close> with no further frame.
\<close>

definition frame_arrives :: "bool \<Rightarrow> real \<Rightarrow> nat \<times> real \<Rightarrow> audio_service \<Rightarrow> audio_service" where
  "frame_arrives cb_stops threshold fr s =
     on_data threshold (fst fr) (snd fr) (run_timers cb_stops (fst fr) s)"

definition run_frames :: "bool \<Rightarrow> real \<Rightarrow> (nat \<times> real) list \<Rightarrow> audio_service \<Rightarrow> audio_service" where
  "run_frames cb_stops threshold frs s = foldl (\<lambda>s fr. frame_arrives cb_stops threshold fr s) s frs"

definition idle_until :: "bool \<Rightarrow> nat \<Rightarrow> audio_service \<Rightarrow> audio_service" where
  "idle_until cb_stops t s = run_timers cb_stops t s"

fun gaps_below :: "nat \<Rightarrow> nat list \<Rightarrow> bool" where
  "gaps_below d [] = True"
| "gaps_below d [t] = True"
| "gaps_below d (t # u # ts) = (t \<le> u \<and> u < t + d \<and> gaps_below d (u # ts))"

subsection \<open>AudioModule: the recording loop's silence event\<close>

type_synonym byte = "8 word"

text \<open>
  \<open>isSilence\<close> computes in \<open>Double\<close>; the model computes in the reals, which agrees
  with it except within rounding distance of the threshold. With fewer than two bytes
  the source divides zero by zero and compares the result, not a number, with 500: false.
\<close>

fun sample_squares :: "byte list \<Rightarrow> int" where
  "sample_squares (lo # hi # rest) =
     (let sample = push_bit 8 (sint hi) OR (uint lo AND 255)
      in sample * sample + sample_squares rest)"
| "sample_squares _ = 0"

definition isSilence :: "byte list \<Rightarrow> bool" where
  "isSilence chunk =
     (if length chunk div 2 = 0 then False
      else sqrt (real_of_int (sample_squares chunk) / real (length chunk div 2)) < 500)"

definition writeAudioDataToFile_events :: "byte list list \<Rightarrow> nat" where
  "writeAudioDataToFile_events chunks = length (filter isSilence (filter (\<lambda>c. length c > 0) chunks))"

subsection \<open>AudioModule: the clip container\<close>

text \<open>
  \<open>Int\<close> is \<open>32 word\<close>; \<open>shr\<close> is the arithmetic shift and \<open>toByte\<close> keeps the low
  eight bits. The clip crosses the bridge in Base64; encoding and decoding are the
  platform's and inverse to each other, so the model passes the bytes.
\<close>

definition SAMPLE_RATE :: "32 word" where
  "SAMPLE_RATE = 44100"

definition intToByteArray :: "32 word \<Rightarrow> byte list" where
  "intToByteArray v =
     [ucast v, ucast (signed_drop_bit 8 v), ucast (signed_drop_bit 16 v),
      ucast (signed_drop_bit 24 v)]"

definition shortToByteArray :: "32 word \<Rightarrow> byte list" where
  "shortToByteArray v = [ucast v, ucast (signed_drop_bit 8 v)]"

definition toByteArray :: "string \<Rightarrow> byte list" where
  "toByteArray s = map of_char s"

definition convertPcmToWav :: "byte list \<Rightarrow> byte list" where
  "convertPcmToWav pcmData =
     (let totalDataLen = (word_of_nat (length pcmData) :: 32 word) + 36;
          byteRate = SAMPLE_RATE * 2
      in toByteArray ''RIFF'' @ intToByteArray totalDataLen @ toByteArray ''WAVE''
         @ toByteArray ''fmt '' @ intToByteArray 16 @ shortToByteArray 1 @ shortToByteArray 1
         @ intToByteArray SAMPLE_RATE @ intToByteArray byteRate @ shortToByteArray 2
         @ shortToByteArray 16
         @ toByteArray ''data'' @ intToByteArray (word_of_nat (length pcmData))
         @ pcmData)"

text \<open>
  Modelled from the spec: the decoder of a clip is the player's and is not in the
  repository (the playback path stores the clip as a file and hands it to the platform's
  player). A clip is read as the container the specification lists: format tag, sample
  rate, channel count, bit depth, payload length and raw sample payload, the fields
  little-endian at the offsets of the 44-byte header, behind the four tags.
\<close>

definition le16 :: "byte list \<Rightarrow> 32 word" where
  "le16 bs = (case bs of [b0, b1] \<Rightarrow> ucast b0 OR push_bit 8 (ucast b1) | _ \<Rightarrow> 0)"

definition le32 :: "byte list \<Rightarrow> 32 word" where
  "le32 bs =
     (case bs of
        [b0, b1, b2, b3] \<Rightarrow>
          ucast b0 OR push_bit 8 (ucast b1) OR push_bit 16 (ucast b2) OR push_bit 24 (ucast b3)
      | _ \<Rightarrow> 0)"

definition field :: "nat \<Rightarrow> nat \<Rightarrow> byte list \<Rightarrow> byte list" where
  "field offset n bs = take n (drop offset bs)"

record decoded_clip =
  clip_format :: nat
  clip_channels :: nat
  clip_sampleRate :: nat
  clip_bitsPerSample :: nat
  clip_payloadLength :: nat
  clip_payload :: "byte list"

definition decode_clip :: "byte list \<Rightarrow> decoded_clip option" where
  "decode_clip bs =
     (if length bs < 44 \<or> field 0 4 bs \<noteq> toByteArray ''RIFF''
         \<or> field 8 4 bs \<noteq> toByteArray ''WAVE'' \<or> field 12 4 bs \<noteq> toByteArray ''fmt ''
         \<or> field 36 4 bs \<noteq> toByteArray ''data''
      then None
      else
        let n = unat (le32 (field 40 4 bs))
        in if length bs < 44 + n then None
           else Some \<lparr>clip_format = unat (le16 (field 20 2 bs)),
                       clip_channels = unat (le16 (field 22 2 bs)),
                       clip_sampleRate = unat (le32 (field 24 4 bs)),
                       clip_bitsPerSample = unat (le16 (field 34 2 bs)),
                       clip_payloadLength = n,
                       clip_payload = take n (drop 44 bs)\<rparr>)"

definition clip_frames :: "decoded_clip \<Rightarrow> nat" where
  "clip_frames c = clip_payloadLength c div (clip_channels c * (clip_bitsPerSample c div 8))"

text \<open>
  The capture: \<open>startRecording\<close> opens the recorder at \<open>SAMPLE_RATE\<close>, mono, 16
  bits, so a frame is two bytes of the recorded data.
\<close>

definition captured_frames :: "byte list \<Rightarrow> nat" where
  "captured_frames pcmData = length pcmData div 2"

section \<open>Runs of operations\<close>

subsection \<open>Connects and disconnects, with the log of the devices connected\<close>

datatype bt_op = Connect ble_env string | Disconnect ble_env string

fun bt_exec :: "bluetooth \<times> device list \<Rightarrow> bt_op \<Rightarrow> bluetooth \<times> device list" where
  "bt_exec (s, connected_log) (Connect env deviceId) =
     (case connectToDevice env deviceId s of
        (Inr device, s') \<Rightarrow> (s', device # connected_log)
      | (Inl _, s') \<Rightarrow> (s', connected_log))"
| "bt_exec (s, connected_log) (Disconnect env deviceId) =
     (disconnectFromDevice env deviceId s, connected_log)"

definition bt_run :: "bt_op list \<Rightarrow> bluetooth \<Rightarrow> bluetooth \<times> device list" where
  "bt_run ops s = foldl bt_exec (s, []) ops"

text \<open>
  The history as the specification words it: the devices in the order of their latest
  connect, the most recent first, each id once, at most ten.
\<close>

fun most_recent_first :: "device list \<Rightarrow> device list" where
  "most_recent_first [] = []"
| "most_recent_first (d # ds) = d # filter (\<lambda>e. dev_id e \<noteq> dev_id d) (most_recent_first ds)"

definition history_ok :: "device list \<Rightarrow> bool" where
  "history_ok h = (length h \<le> 10 \<and> distinct (map dev_id h))"

text \<open>
  A device id is the address the scan reports, and no address is empty. The provider
  takes its devices from the scan and from the history it wrote itself.
\<close>

definition ids_present :: "bluetooth \<Rightarrow> bool" where
  "ids_present s =
     (list_all (\<lambda>d. dev_id d \<noteq> []) (discoveredDevices s @ previousDevices s)
      \<and> (case connectedDevice s of None \<Rightarrow> True | Some d \<Rightarrow> dev_id d \<noteq> []))"

subsection \<open>Submissions while offline, and drain passes\<close>

datatype request = SendAudio string string | SendText string

fun submit :: "world \<Rightarrow> request \<Rightarrow> world" where
  "submit w (SendAudio audioBase64 transcription) = snd (sendAudioToServer audioBase64 transcription w)"
| "submit w (SendText txt) = snd (sendTextToServer txt w)"

definition submit_all :: "request list \<Rightarrow> world \<Rightarrow> world" where
  "submit_all reqs w = foldl submit w reqs"

fun request_of :: "pending \<Rightarrow> request" where
  "request_of (PendingAudio a tr ts mid) = SendAudio a tr"
| "request_of (PendingText txt ts mid) = SendText txt"

fun drain :: "nat \<Rightarrow> world \<Rightarrow> world" where
  "drain 0 w = w"
| "drain (Suc k) w = drain k (processPendingMessages w)"

text \<open>The cells of the provider that the screens read.\<close>

definition visible ::
  "world \<Rightarrow> bool \<times> message list \<times> bool \<times> pending list \<times> bool \<times> string" where
  "visible w = (wsConnected w, messages w, isProcessingAudio w, pendingMessages w,
                isSpeaking w, lastTranscription w)"

subsection \<open>The two providers side by side\<close>

text \<open>
  The screens hold both providers. \<open>clearConversation\<close> is AppContext's function and
  is handed to the button as it is; BluetoothContext's cells are not in its scope.
\<close>

definition press_clear :: "world \<times> bluetooth \<Rightarrow> world \<times> bluetooth" where
  "press_clear app = (clearConversation (fst app), snd app)"

section \<open>Example states\<close>

definition air_headset :: device where
  "air_headset = \<lparr>dev_id = ''DE:AD:BE:EF:12:34'', dev_name = ''AIR-Headset'', rssi = -65\<rparr>"

definition bt_earbuds :: device where
  "bt_earbuds = \<lparr>dev_id = ''C0:FF:EE:00:00:01'', dev_name = ''BT Earbuds'', rssi = -72\<rparr>"

definition bt_scanned :: bluetooth where
  "bt_scanned = bt_initial\<lparr>isBluetoothEnabled := True, isInitialized := True,
     discoveredDevices := [air_headset, bt_earbuds]\<rparr>"

definition ble_ok :: ble_env where
  "ble_ok = \<lparr>ble_stopScan = None, ble_connect = None, ble_retrieveServices = None,
     ble_disconnect = None, storage_setItem = None\<rparr>"

definition ble_down :: ble_env where
  "ble_down = \<lparr>ble_stopScan = Some ''radio off'', ble_connect = Some ''radio off'',
     ble_retrieveServices = Some ''radio off'', ble_disconnect = Some ''radio off'',
     storage_setItem = Some ''disk full''\<rparr>"

definition example_settings :: settings where
  "example_settings = \<lparr>userId = None, userName = ''User'', aiVoice = ''default''\<rparr>"

definition ws_idle :: websocket where
  "ws_idle = \<lparr>socket = None, url = Some ''wss://airassist-server.example.com/ws'',
     connected = False, connecting = False, reconnectTimeout = None, pingInterval = None,
     lastPingTime = None, wire = [], send_calls = []\<rparr>"

definition world_offline :: world where
  "world_offline = \<lparr>isOnline = True, wsConnected = False, settings = example_settings,
     messages = [], isProcessingAudio = False, pendingMessages = [], isSpeaking = False,
     speakingTimer = False, lastTranscription = [],
     service = ws_connect (Created False) ws_idle, now = 1700000000000, lapses = []\<rparr>"

definition lights_message :: message where
  "lights_message = \<lparr>msg_id = ''1700000000000'', msg_text = ''turn on lights'', isUser = True,
     msg_type = ''normal'', timestamp = 1700000000000\<rparr>"

definition lights_pending :: pending where
  "lights_pending = PendingAudio ''UklGRg=='' ''turn on lights'' 1700000000000 ''1700000000000''"

definition closing_socket :: socket where
  "closing_socket = \<lparr>readyState = WS_CLOSING, send_raises = False\<rparr>"

definition open_socket :: socket where
  "open_socket = \<lparr>readyState = WS_OPEN, send_raises = False\<rparr>"

definition world_stale :: "socket \<Rightarrow> world" where
  "world_stale sk = world_offline\<lparr>wsConnected := True, messages := [lights_message],
     pendingMessages := [lights_pending],
     service := ws_idle\<lparr>socket := Some sk, connected := True, pingInterval := Some 30000,
       lastPingTime := Some 1700000000000\<rparr>,
     now := 1700000040000\<rparr>"

definition world_offline_ticking :: world where
  "world_offline_ticking = world_offline\<lparr>lapses := [0, 0, 0, 0, 0, 2500]\<rparr>"

definition keepalive_opened :: world where
  "keepalive_opened = transport_open world_offline"

definition keepalive_first_tick :: world where
  "keepalive_first_tick = pingTick (Created False) (elapse 30000 keepalive_opened)"

definition keepalive_response :: world where
  "keepalive_response =
     handleMessage (AiResponse ''Done'' None None (Some ''1700000000000''))
       (elapse 20000 keepalive_first_tick)"

definition keepalive_second_tick :: world where
  "keepalive_second_tick = pingTick (Created False) (elapse 10000 keepalive_response)"

definition keepalive_third_tick :: world where
  "keepalive_third_tick = pingTick (Created False) (elapse 30000 keepalive_second_tick)"

definition quiet_frames :: "(nat \<times> real) list" where
  "quiet_frames = [(0, 0), (1000, 0), (2000, 0), (3000, 0), (4000, 0), (5000, 0)]"

definition quiet_chunk :: "byte list" where
  "quiet_chunk = [0, 0, 0, 0]"

definition two_samples :: "byte list" where
  "two_samples = [0x10, 0x00, 0x20, 0x00]"

section \<open>Device history and connection state\<close>

lemma take_filter_one:
  "distinct (map f xs) \<Longrightarrow>
     take n (filter (\<lambda>x. f x \<noteq> a) (take (Suc n) xs)) = take n (filter (\<lambda>x. f x \<noteq> a) xs)"
proof (induction xs arbitrary: n)
  case Nil
  then show ?case by simp
next
  case (Cons x xs)
  show ?case
  proof (cases "f x = a")
    case True
    with Cons.prems have "a \<notin> f ` set xs" by auto
    then have keep: "\<And>ys. set ys \<subseteq> set xs \<Longrightarrow> filter (\<lambda>x. f x \<noteq> a) ys = ys"
      by (auto intro!: filter_True)
    have "filter (\<lambda>x. f x \<noteq> a) (take n xs) = take n xs"
      by (rule keep) (rule set_take_subset)
    moreover have "filter (\<lambda>x. f x \<noteq> a) xs = xs"
      by (rule keep) simp
    ultimately show ?thesis using True by simp
  next
    case False
    show ?thesis
    proof (cases n)
      case 0
      then show ?thesis by simp
    next
      case (Suc m)
      from Cons.prems have "distinct (map f xs)" by simp
      from Cons.IH [OF this, of m] show ?thesis using False Suc by simp
    qed
  qed
qed

lemma most_recent_first_distinct: "distinct (map dev_id (most_recent_first ds))"
  by (induction ds) (auto simp: distinct_map_filter)

lemma most_recent_first_id: "distinct (map dev_id ds) \<Longrightarrow> most_recent_first ds = ds"
proof (induction ds)
  case Nil
  then show ?case by simp
next
  case (Cons d ds)
  from Cons.prems have "dev_id d \<notin> dev_id ` set ds" by simp
  then have "\<forall>e\<in>set ds. dev_id e \<noteq> dev_id d" by (metis imageI)
  then have "filter (\<lambda>e. dev_id e \<noteq> dev_id d) ds = ds" by simp
  with Cons show ?case by simp
qed

lemma saveDeviceToHistory_previous:
  "previousDevices (saveDeviceToHistory env d s) =
     take 10 (d # filter (\<lambda>e. dev_id e \<noteq> dev_id d) (previousDevices s))"
  by (simp add: saveDeviceToHistory_def Let_def split: option.splits)

lemma stopScan_previous: "previousDevices (stopScan env s) = previousDevices s"
  by (simp add: stopScan_def split: option.splits)

lemma connectToDevice_previous:
  "connectToDevice env i s = (r, s') \<Longrightarrow>
     previousDevices s' =
       (case r of Inl _ \<Rightarrow> previousDevices s
        | Inr d \<Rightarrow> take 10 (d # filter (\<lambda>e. dev_id e \<noteq> dev_id d) (previousDevices s)))"
  by (auto simp: connectToDevice_def Let_def connect_failed_def saveDeviceToHistory_previous
        stopScan_previous split: if_splits option.splits)

lemma disconnectFromDevice_previous:
  "previousDevices (disconnectFromDevice env i s) = previousDevices s"
  by (simp add: disconnectFromDevice_def split: option.splits)

lemma history_step:
  assumes "h = take 10 (most_recent_first l)"
  shows "take 10 (d # filter (\<lambda>e. dev_id e \<noteq> dev_id d) h) = take 10 (most_recent_first (d # l))"
proof -
  have "take 9 (filter (\<lambda>e. dev_id e \<noteq> dev_id d) (take (Suc 9) (most_recent_first l)))
        = take 9 (filter (\<lambda>e. dev_id e \<noteq> dev_id d) (most_recent_first l))"
    by (rule take_filter_one) (rule most_recent_first_distinct)
  then show ?thesis using assms by (simp add: take_Cons')
qed

lemma bt_run_history:
  assumes "history_ok (previousDevices s)"
  shows "previousDevices (fst (bt_run ops s)) =
           take 10 (most_recent_first (snd (bt_run ops s) @ previousDevices s))"
proof (induction ops rule: rev_induct)
  case Nil
  from assms show ?case
    by (simp add: bt_run_def history_ok_def most_recent_first_id)
next
  case (snoc op ops)
  obtain s1 l1 where r: "bt_run ops s = (s1, l1)" by (cases "bt_run ops s")
  with snoc have ih: "previousDevices s1 = take 10 (most_recent_first (l1 @ previousDevices s))"
    by simp
  have step: "bt_run (ops @ [op]) s = bt_exec (s1, l1) op"
    using r by (simp add: bt_run_def)
  show ?case
  proof (cases op)
    case (Connect env i)
    obtain res s2 where c: "connectToDevice env i s1 = (res, s2)"
      by (cases "connectToDevice env i s1")
    show ?thesis
    proof (cases res)
      case (Inl e)
      with c connectToDevice_previous [OF c] ih step Connect show ?thesis by simp
    next
      case (Inr d)
      with c connectToDevice_previous [OF c] step Connect
      have "previousDevices (fst (bt_run (ops @ [op]) s)) =
              take 10 (d # filter (\<lambda>e. dev_id e \<noteq> dev_id d) (previousDevices s1))"
        and "snd (bt_run (ops @ [op]) s) = d # l1"
        by simp_all
      with history_step [OF ih, of d] show ?thesis by simp
    qed
  next
    case (Disconnect env i)
    with step ih show ?thesis by (simp add: disconnectFromDevice_previous)
  qed
qed

lemmas bt_defs = connectToDevice_def disconnectFromDevice_def saveDeviceToHistory_def
  stopScan_def connect_failed_def bt_initial_def bt_scanned_def air_headset_def bt_earbuds_def
  ble_ok_def ble_down_def bt_run_def history_ok_def Let_def

text \<open>
  Claim C4. Start from any state whose history has at most ten entries with pairwise
  different ids, and run any sequence of connects and disconnects, whatever the radio and
  the store answer. The history is then the list of the devices whose connect succeeded,
  followed by the devices of the starting history, the most recently connected first,
  each id kept at its most recent place only, cut to ten entries; so it has at most ten
  entries with pairwise different ids. The log grows on a successful connect and on
  nothing else, so it is on a successful connect that a device is put (or moved) to the
  front, and the oldest entry that leaves when an eleventh would come.
\<close>

theorem device_history_mru:
  assumes "history_ok (previousDevices s)"
  shows "previousDevices (fst (bt_run ops s)) =
           take 10 (most_recent_first (snd (bt_run ops s) @ previousDevices s))
       \<and> history_ok (previousDevices (fst (bt_run ops s)))"
proof -
  have eq: "previousDevices (fst (bt_run ops s)) =
              take 10 (most_recent_first (snd (bt_run ops s) @ previousDevices s))"
    using assms by (rule bt_run_history)
  have "distinct (map dev_id (take 10 (most_recent_first (snd (bt_run ops s) @ previousDevices s))))"
    by (simp add: take_map [symmetric] distinct_take most_recent_first_distinct)
  with eq show ?thesis by (simp add: history_ok_def)
qed

text \<open>
  The headset and the earbuds are connected in turn, the earbuds are disconnected, a
  connect with the radio off fails, and the headset is connected again: the headset is
  in front, once.
\<close>

theorem device_history_mru_witness:
  "history_ok (previousDevices bt_scanned)
   \<and> previousDevices (fst (bt_run
        [Connect ble_ok ''DE:AD:BE:EF:12:34'', Connect ble_ok ''C0:FF:EE:00:00:01'',
         Disconnect ble_down ''C0:FF:EE:00:00:01'', Connect ble_down ''C0:FF:EE:00:00:01'',
         Connect ble_ok ''DE:AD:BE:EF:12:34''] bt_scanned))
     = [air_headset, bt_earbuds]"
proof -
  have h: "history_ok (previousDevices bt_scanned)"
    by (simp add: bt_defs)
  have l: "snd (bt_run
        [Connect ble_ok ''DE:AD:BE:EF:12:34'', Connect ble_ok ''C0:FF:EE:00:00:01'',
         Disconnect ble_down ''C0:FF:EE:00:00:01'', Connect ble_down ''C0:FF:EE:00:00:01'',
         Connect ble_ok ''DE:AD:BE:EF:12:34''] bt_scanned) = [air_headset, bt_earbuds, air_headset]"
    by (simp add: bt_defs)
  have p: "previousDevices bt_scanned = []"
    by (simp add: bt_defs)
  from device_history_mru [OF h, of "[Connect ble_ok ''DE:AD:BE:EF:12:34'', Connect ble_ok ''C0:FF:EE:00:00:01'',
         Disconnect ble_down ''C0:FF:EE:00:00:01'', Connect ble_down ''C0:FF:EE:00:00:01'',
         Connect ble_ok ''DE:AD:BE:EF:12:34'']"] h show ?thesis
    unfolding l p by (simp add: air_headset_def bt_earbuds_def)
qed

text \<open>
  Claim C6, as stated, fails: after a connect to an id that no list knows, the call has
  rejected with ``Device not found'', and the connection state is \<open>ERROR\<close>, not
  \<open>DISCONNECTED\<close>. Before Bluetooth is enabled and initialised the call rejects with
  another error, ``Bluetooth is not available'', and changes nothing.
\<close>

theorem connect_unknown_device_counterexample:
  "fst (connectToDevice ble_ok ''unknown-id'' bt_scanned) = Inl (Error ''Device not found'')
   \<and> connectionState (snd (connectToDevice ble_ok ''unknown-id'' bt_scanned)) = ERROR
   \<and> connectionState (snd (connectToDevice ble_ok ''unknown-id'' bt_scanned)) \<noteq> DISCONNECTED
   \<and> connectToDevice ble_ok ''unknown-id'' bt_initial
       = (Inl (Error ''Bluetooth is not available''), bt_initial)"
  by (simp add: bt_defs)

text \<open>
  Claim C6, amended. With Bluetooth enabled and initialised, a connect to an id that is
  neither among the discovered nor among the previous devices rejects with the error
  ``Device not found''; the handler of the failure sets the connection state to
  \<open>ERROR\<close> (it does not stay \<open>CONNECTING\<close>), records the message, and leaves the
  connected device and the history as they were.
\<close>

theorem connect_unknown_device:
  assumes "isBluetoothEnabled s" and "isInitialized s"
    and "deviceId \<notin> dev_id ` set (discoveredDevices s @ previousDevices s)"
  shows "fst (connectToDevice env deviceId s) = Inl (Error ''Device not found'')
       \<and> connectionState (snd (connectToDevice env deviceId s)) = ERROR
       \<and> bt_error (snd (connectToDevice env deviceId s))
           = Some ''Failed to connect to device: Device not found''
       \<and> connectedDevice (snd (connectToDevice env deviceId s)) = connectedDevice s
       \<and> previousDevices (snd (connectToDevice env deviceId s)) = previousDevices s"
proof -
  let ?s1 = "s\<lparr>connectionState := CONNECTING, bt_error := None\<rparr>"
  let ?s2 = "if isScanning ?s1 then stopScan env ?s1 else ?s1"
  have lists: "discoveredDevices ?s2 = discoveredDevices s" "previousDevices ?s2 = previousDevices s"
    "connectedDevice ?s2 = connectedDevice s"
    by (simp_all add: stopScan_def split: option.splits)
  from assms(3) have "find (\<lambda>d. dev_id d = deviceId) (discoveredDevices s @ previousDevices s) = None"
    unfolding find_None_iff by (metis imageI)
  with lists have "connectToDevice env deviceId s = connect_failed ''Device not found'' ?s2"
    using assms(1,2) by (simp add: connectToDevice_def Let_def)
  with lists show ?thesis
    by (simp add: connect_failed_def)
qed

text \<open>
  The state after a scan that found the two example devices satisfies the hypotheses.
\<close>

theorem connect_unknown_device_witness:
  "isBluetoothEnabled bt_scanned \<and> isInitialized bt_scanned
   \<and> ''unknown-id'' \<notin> dev_id ` set (discoveredDevices bt_scanned @ previousDevices bt_scanned)
   \<and> fst (connectToDevice ble_ok ''unknown-id'' bt_scanned) = Inl (Error ''Device not found'')
   \<and> connectionState (snd (connectToDevice ble_ok ''unknown-id'' bt_scanned)) = ERROR"
proof -
  have a: "isBluetoothEnabled bt_scanned" and b: "isInitialized bt_scanned"
    and c: "''unknown-id'' \<notin> dev_id ` set (discoveredDevices bt_scanned @ previousDevices bt_scanned)"
    by (simp_all add: bt_defs)
  from connect_unknown_device [OF a b c, of ble_ok] a b c show ?thesis by simp
qed

lemma find_in_set: "find P xs = Some x \<Longrightarrow> x \<in> set xs"
  by (induction xs) (auto split: if_splits)

lemma stopScan_ids: "ids_present s \<Longrightarrow> ids_present (stopScan env s)"
  by (simp add: stopScan_def ids_present_def split: option.splits)

lemma connectToDevice_ids:
  assumes "ids_present s"
  shows "ids_present (snd (connectToDevice env i s))"
proof -
  let ?s1 = "s\<lparr>connectionState := CONNECTING, bt_error := None\<rparr>"
  let ?s2 = "if isScanning ?s1 then stopScan env ?s1 else ?s1"
  from assms have "ids_present ?s1" by (simp add: ids_present_def)
  then have s2: "ids_present ?s2" by (simp add: stopScan_ids)
  have fail: "ids_present (snd (connect_failed msg ?s2))" for msg
    using s2 by (simp add: connect_failed_def ids_present_def)
  have ok: "ids_present (saveDeviceToHistory env d (?s2\<lparr>connectedDevice := Some d,
               connectionState := CONNECTED\<rparr>))"
    if "find (\<lambda>d. dev_id d = i) (discoveredDevices ?s2 @ previousDevices ?s2) = Some d" for d
  proof -
    from that have "d \<in> set (discoveredDevices ?s2 @ previousDevices ?s2)"
      by (rule find_in_set)
    with s2 have d: "dev_id d \<noteq> []"
      unfolding ids_present_def list_all_iff by blast
    from s2 have all: "\<forall>e\<in>set (discoveredDevices ?s2 @ previousDevices ?s2). dev_id e \<noteq> []"
      unfolding ids_present_def list_all_iff by blast
    have "\<forall>e\<in>set (take 10 (d # filter (\<lambda>e. dev_id e \<noteq> dev_id d) (previousDevices ?s2))).
            dev_id e \<noteq> []"
    proof
      fix e assume "e \<in> set (take 10 (d # filter (\<lambda>e. dev_id e \<noteq> dev_id d) (previousDevices ?s2)))"
      then have "e \<in> set (d # filter (\<lambda>e. dev_id e \<noteq> dev_id d) (previousDevices ?s2))"
        by (rule in_set_takeD)
      with d all show "dev_id e \<noteq> []" by auto
    qed
    with d all show ?thesis
      unfolding ids_present_def list_all_iff saveDeviceToHistory_def Let_def
      by (auto split: option.splits)
  qed
  show ?thesis
    unfolding connectToDevice_def Let_def using assms fail ok
    by (auto split: option.splits)
qed

lemma disconnectFromDevice_ids:
  "ids_present s \<Longrightarrow> ids_present (disconnectFromDevice env i s)"
  by (simp add: disconnectFromDevice_def ids_present_def split: option.splits)

lemma bt_run_ids:
  assumes "ids_present s"
  shows "ids_present (fst (bt_run ops s))"
proof (induction ops rule: rev_induct)
  case Nil
  from assms show ?case by (simp add: bt_run_def)
next
  case (snoc op ops)
  obtain s1 l1 where r: "bt_run ops s = (s1, l1)" by (cases "bt_run ops s")
  with snoc have ih: "ids_present s1" by simp
  have step: "bt_run (ops @ [op]) s = bt_exec (s1, l1) op"
    using r by (simp add: bt_run_def)
  show ?case
  proof (cases op)
    case (Connect env i)
    with step connectToDevice_ids [OF ih, of env i] show ?thesis
      by (auto split: prod.splits sum.splits)
  next
    case (Disconnect env i)
    with step disconnectFromDevice_ids [OF ih, of env i] show ?thesis by simp
  qed
qed

text \<open>
  Claim C10. Start from a state in which no device has an empty id, run any sequence of
  connects and disconnects, and let a device be connected then. A disconnect called with
  that device's id leaves no connected device and the connection state
  \<open>DISCONNECTED\<close>, whether the radio's disconnect resolves or rejects: the branch
  that handles the rejection clears the device as well.
\<close>

theorem disconnect_clears_device:
  assumes "ids_present s" and "connectedDevice (fst (bt_run ops s)) = Some d"
  shows "connectedDevice (disconnectFromDevice env (dev_id d) (fst (bt_run ops s))) = None
       \<and> connectionState (disconnectFromDevice env (dev_id d) (fst (bt_run ops s))) = DISCONNECTED"
proof -
  from bt_run_ids [OF assms(1), of ops] assms(2) have "dev_id d \<noteq> []"
    by (simp add: ids_present_def)
  with assms(2) show ?thesis
    by (simp add: disconnectFromDevice_def split: option.splits)
qed

text \<open>
  The headset is connected after the scan, and the radio rejects the disconnect: the
  error is recorded and the device is cleared all the same.
\<close>

theorem disconnect_clears_device_witness:
  "ids_present bt_scanned
   \<and> connectedDevice (fst (bt_run [Connect ble_ok ''DE:AD:BE:EF:12:34''] bt_scanned)) = Some air_headset
   \<and> connectedDevice (disconnectFromDevice ble_down (dev_id air_headset)
        (fst (bt_run [Connect ble_ok ''DE:AD:BE:EF:12:34''] bt_scanned))) = None
   \<and> connectionState (disconnectFromDevice ble_down (dev_id air_headset)
        (fst (bt_run [Connect ble_ok ''DE:AD:BE:EF:12:34''] bt_scanned))) = DISCONNECTED
   \<and> bt_error (disconnectFromDevice ble_down (dev_id air_headset)
        (fst (bt_run [Connect ble_ok ''DE:AD:BE:EF:12:34''] bt_scanned)))
       = Some ''Failed to disconnect from device''"
proof -
  have a: "ids_present bt_scanned"
    by (simp add: ids_present_def bt_defs)
  have b: "connectedDevice (fst (bt_run [Connect ble_ok ''DE:AD:BE:EF:12:34''] bt_scanned))
      = Some air_headset"
    by (simp add: bt_defs)
  have e: "bt_error (disconnectFromDevice ble_down (dev_id air_headset)
        (fst (bt_run [Connect ble_ok ''DE:AD:BE:EF:12:34''] bt_scanned)))
       = Some ''Failed to disconnect from device''"
    by (simp add: bt_defs)
  from disconnect_clears_device [OF a b, of ble_down] a b e show ?thesis by simp
qed

section \<open>The offline queue and the conversation log\<close>

lemmas app_defs = Date_now_def addMessage_def sendAudioToServer_def sendTextToServer_def
  processPendingMessages_def WebSocketService_send_def ws_send_def upd_service_def
  startPingInterval_def handleOpen_def transport_open_def set_text_by_id_def Let_def

lemma addMessage_frame:
  "wsConnected (snd (addMessage txt usr typ i w)) = wsConnected w"
  "pendingMessages (snd (addMessage txt usr typ i w)) = pendingMessages w"
  "service (snd (addMessage txt usr typ i w)) = service w"
  "settings (snd (addMessage txt usr typ i w)) = settings w"
  "isProcessingAudio (snd (addMessage txt usr typ i w)) = isProcessingAudio w"
  "isSpeaking (snd (addMessage txt usr typ i w)) = isSpeaking w"
  "lastTranscription (snd (addMessage txt usr typ i w)) = lastTranscription w"
  "isOnline (snd (addMessage txt usr typ i w)) = isOnline w"
  by (simp_all add: addMessage_def Date_now_def split: option.splits)

lemma submit_offline:
  assumes "\<not> wsConnected w"
  shows "\<exists>p. pendingMessages (submit w r) = pendingMessages w @ [p] \<and> request_of p = r"
    and "wsConnected (submit w r) = wsConnected w"
    and "service (submit w r) = service w"
    and "settings (submit w r) = settings w"
  using assms by (cases r; simp add: app_defs split: option.splits)+

lemma submit_all_offline:
  assumes "\<not> wsConnected w"
  shows "map request_of (pendingMessages (submit_all reqs w)) = map request_of (pendingMessages w) @ reqs
       \<and> \<not> wsConnected (submit_all reqs w)
       \<and> service (submit_all reqs w) = service w
       \<and> settings (submit_all reqs w) = settings w"
proof (induction reqs rule: rev_induct)
  case Nil
  from assms show ?case by (simp add: submit_all_def)
next
  case (snoc r reqs)
  then have off: "\<not> wsConnected (submit_all reqs w)" by simp
  have step: "submit_all (reqs @ [r]) w = submit (submit_all reqs w) r"
    by (simp add: submit_all_def)
  from submit_offline(1) [OF off, of r] obtain p where
    "pendingMessages (submit (submit_all reqs w) r) = pendingMessages (submit_all reqs w) @ [p]"
    "request_of p = r" by blast
  with snoc submit_offline(2-4) [OF off, of r] show ?case
    unfolding step by simp
qed

lemma processPendingMessages_step:
  assumes "wsConnected w" and "pendingMessages w = p # ps"
  shows "pendingMessages (processPendingMessages w) = ps"
    and "send_calls (service (processPendingMessages w)) =
           send_calls (service w) @ [(outbound_of (settings w) p, fst (ws_send (outbound_of (settings w) p) (service w)))]"
    and "wsConnected (processPendingMessages w)"
    and "settings (processPendingMessages w) = settings w"
  using assms by (simp_all add: app_defs split: option.splits)

lemma processPendingMessages_idle:
  "\<not> wsConnected w \<or> pendingMessages w = [] \<Longrightarrow> processPendingMessages w = w"
  by (auto simp: processPendingMessages_def)

lemma processPendingMessages_one:
  "length (pendingMessages v) \<le> Suc (length (pendingMessages (processPendingMessages v)))
   \<and> length (send_calls (service (processPendingMessages v))) \<le> Suc (length (send_calls (service v)))"
proof (cases "wsConnected v \<and> pendingMessages v \<noteq> []")
  case True
  then obtain p ps where "pendingMessages v = p # ps" by (cases "pendingMessages v") auto
  with True processPendingMessages_step(1,2) [of v p ps] show ?thesis by simp
next
  case False
  then have "processPendingMessages v = v" by (auto simp: processPendingMessages_idle)
  then show ?thesis by simp
qed

lemma drain_fifo:
  assumes "wsConnected w"
  shows "pendingMessages (drain k w) = drop k (pendingMessages w)
       \<and> map fst (send_calls (service (drain k w))) =
           map fst (send_calls (service w)) @ map (outbound_of (settings w)) (take k (pendingMessages w))"
  using assms
proof (induction k arbitrary: w)
  case 0
  then show ?case by simp
next
  case (Suc k)
  show ?case
  proof (cases "pendingMessages w")
    case Nil
    then have "processPendingMessages w = w" by (simp add: processPendingMessages_idle)
    with Suc Nil show ?thesis by simp
  next
    case (Cons p ps)
    note st = processPendingMessages_step [OF Suc.prems Cons]
    from Suc.IH [OF st(3)] st(1,2,4) Cons show ?thesis by simp
  qed
qed

lemma transport_open_frame:
  assumes "socket (service w) \<noteq> None"
  shows "wsConnected (transport_open w)"
    and "pendingMessages (transport_open w) = pendingMessages w"
    and "settings (transport_open w) = settings w"
    and "send_calls (service (transport_open w)) = send_calls (service w)"
  using assms by (auto simp: app_defs split: option.splits)

lemmas ex_defs = example_settings_def ws_idle_def world_offline_def lights_message_def
  lights_pending_def closing_socket_def open_socket_def world_stale_def ws_connect_def
  ws_disconnect_def scheduleReconnect_def submit_all_def or_else_def truthy_def
  user_or_guest_def offline_notice_def

lemma toString_example: "toString 1700000000000 = ''1700000000000''"
  by (simp add: toString.simps digit_char_def)

lemma Date_now_idle: "lapses w = [] \<Longrightarrow> Date_now w = (now w, w)"
  by (simp add: Date_now_def)

lemma addMessage_idle:
  "lapses w = [] \<Longrightarrow>
     addMessage txt usr typ None w =
       (toString (now w),
        w\<lparr>messages := messages w @
          [\<lparr>msg_id = toString (now w), msg_text = txt, isUser = usr, msg_type = typ,
            timestamp = now w\<rparr>]\<rparr>)"
  by (simp add: addMessage_def Date_now_idle)

lemma sendAudioToServer_idle:
  "lapses w = [] \<Longrightarrow> \<not> wsConnected w \<Longrightarrow>
     snd (sendAudioToServer a tr w) =
       w\<lparr>pendingMessages := pendingMessages w @ [PendingAudio a tr (now w) (toString (now w))],
         messages := set_text_by_id (toString (now w))
              (or_else tr ''Message saved for when connection is restored'')
              (messages w @ [\<lparr>msg_id = toString (now w), msg_text = or_else tr ''Listening...'',
                 isUser = True, msg_type = ''normal'', timestamp = now w\<rparr>])
            @ [\<lparr>msg_id = toString (now w), msg_text = offline_notice, isUser = False,
                msg_type = ''system'', timestamp = now w\<rparr>],
         isProcessingAudio := False\<rparr>"
  by (simp add: sendAudioToServer_def Let_def Date_now_idle addMessage_idle)

lemma toString_example2: "toString 1700000002500 = ''1700000002500''"
  by (simp add: toString.simps digit_char_def)

lemma ticking_queue:
  "pendingMessages
        (submit_all [SendAudio ''UklGRg=='' ''turn on lights'', SendText ''and the fan''] world_offline_ticking)
      = [PendingAudio ''UklGRg=='' ''turn on lights'' 1700000000000 ''1700000000000'',
         PendingText ''and the fan'' 1700000002500 ''1700000002500'']"
  by (simp add: world_offline_ticking_def world_offline_def submit_all_def app_defs
        toString_example toString_example2)

text \<open>
  Claim C2. The provider is offline and holds a socket whose open event is still to
  come. Any list of submissions (audio or text) is made; each one is appended to the tail
  of the queue, so the queue holds the old entries followed by the submissions in their
  order. The socket opens, and \<open>k\<close> drain passes run. The queue is then the queue
  without its first \<open>k\<close> entries, and the calls of \<open>WebSocketService.send\<close> made
  since are those of exactly these \<open>k\<close> entries, in their order: every pass removes
  and tries to send the head entry, and no other. In any state \<open>v\<close> whatever, one pass
  takes at most one entry from the queue and calls \<open>send\<close> at most once.
\<close>

theorem offline_queue_fifo:
  assumes "\<not> wsConnected w" and "socket (service w) \<noteq> None"
  shows "map request_of (pendingMessages (submit_all reqs w)) =
           map request_of (pendingMessages w) @ reqs
       \<and> pendingMessages (drain k (transport_open (submit_all reqs w))) =
           drop k (pendingMessages (submit_all reqs w))
       \<and> map fst (send_calls (service (drain k (transport_open (submit_all reqs w))))) =
           map fst (send_calls (service w)) @
           map (outbound_of (settings w)) (take k (pendingMessages (submit_all reqs w)))
       \<and> length (pendingMessages v) \<le> Suc (length (pendingMessages (processPendingMessages v)))
       \<and> length (send_calls (service (processPendingMessages v)))
           \<le> Suc (length (send_calls (service v)))"
proof -
  note sub = submit_all_offline [OF assms(1), of reqs]
  from sub assms(2) have sock: "socket (service (submit_all reqs w)) \<noteq> None" by simp
  note op = transport_open_frame [OF sock]
  from drain_fifo [OF op(1), of k] op(2-4) sub processPendingMessages_one [of v]
  show ?thesis by simp
qed

text \<open>
  An audio message and, 2500 ms later, a text message are submitted offline; after the
  socket has opened, the first pass sends the audio message and leaves the text message.
\<close>

theorem offline_queue_fifo_witness:
  "\<not> wsConnected world_offline_ticking \<and> socket (service world_offline_ticking) \<noteq> None
   \<and> map request_of (pendingMessages
        (submit_all [SendAudio ''UklGRg=='' ''turn on lights'', SendText ''and the fan'']
           world_offline_ticking))
      = [SendAudio ''UklGRg=='' ''turn on lights'', SendText ''and the fan'']
   \<and> pendingMessages (drain 1 (transport_open
        (submit_all [SendAudio ''UklGRg=='' ''turn on lights'', SendText ''and the fan'']
           world_offline_ticking)))
      = [PendingText ''and the fan'' 1700000002500 ''1700000002500'']
   \<and> map fst (send_calls (service (drain 1 (transport_open
        (submit_all [SendAudio ''UklGRg=='' ''turn on lights'', SendText ''and the fan'']
           world_offline_ticking)))))
      = [AudioMessage ''UklGRg=='' ''turn on lights'' ''guest'' ''User'' ''default''
           1700000000000 ''1700000000000'']"
proof -
  have a: "\<not> wsConnected world_offline_ticking"
    and b: "socket (service world_offline_ticking) \<noteq> None"
    by (simp_all add: world_offline_ticking_def ex_defs)
  have s: "send_calls (service world_offline_ticking) = []"
    "settings world_offline_ticking = example_settings"
    "pendingMessages world_offline_ticking = []"
    by (simp_all add: world_offline_ticking_def ex_defs)
  from offline_queue_fifo [OF a b,
      of "[SendAudio ''UklGRg=='' ''turn on lights'', SendText ''and the fan'']" 1]
  show ?thesis
    unfolding ticking_queue s using a b
    by (simp add: example_settings_def user_or_guest_def or_else_def truthy_def)
qed

lemma toString_example3: "toString 1700000040000 = ''1700000040000''"
  by (simp add: toString.simps digit_char_def)

lemma ws_send_failed:
  "\<not> fst (ws_send m svc) \<Longrightarrow> snd (ws_send m svc) = svc\<lparr>send_calls := send_calls svc @ [(m, False)]\<rparr>"
  by (simp add: ws_send_def split: option.splits if_splits)

lemma processPendingMessages_closed:
  assumes "wsConnected w" and "pendingMessages w = p # ps"
  shows "processPendingMessages w =
           (snd (addMessage ''Processing your offline messages...'' False ''system'' None w))
             \<lparr>pendingMessages := ps,
              service := snd (ws_send (outbound_of (settings w) p) (service w)),
              isProcessingAudio := True\<rparr>"
  using assms
  by (simp add: processPendingMessages_def WebSocketService_send_def Let_def addMessage_frame
        case_prod_beta)

lemma addMessage_messages:
  "messages (snd (addMessage txt usr typ None w)) =
     messages w @ [\<lparr>msg_id = toString (now w), msg_text = txt, isUser = usr, msg_type = typ,
                     timestamp = now w + (case lapses w of [] \<Rightarrow> 0 | d # _ \<Rightarrow> d)\<rparr>]"
  by (simp add: addMessage_def Date_now_def)

lemma processPendingMessages_visible:
  "visible (processPendingMessages (w\<lparr>service := svc\<rparr>)) = visible (processPendingMessages w)"
proof (cases "wsConnected w")
  case False
  then show ?thesis by (simp add: processPendingMessages_def visible_def)
next
  case True
  show ?thesis
  proof (cases "pendingMessages w")
    case Nil
    then show ?thesis by (simp add: processPendingMessages_def visible_def)
  next
    case (Cons p ps)
    have "wsConnected (w\<lparr>service := svc\<rparr>)" "pendingMessages (w\<lparr>service := svc\<rparr>) = p # ps"
      using True Cons by simp_all
    note other = processPendingMessages_closed [OF this]
    show ?thesis
      unfolding other processPendingMessages_closed [OF True Cons]
      by (simp add: visible_def addMessage_frame addMessage_messages)
  qed
qed

text \<open>
  Claim C5, as stated, fails. The provider still believes the session connected while
  the socket is closing. The drain pass removes the only entry, \<open>send\<close> returns
  false, nothing reaches the wire, and the cells the screens read are what they are after
  a successful send: the log gains the progress notice only and the entry's message
  stays as it was. The entry is dropped without a report.
\<close>

theorem failed_drain_send_counterexample:
  "wsConnected (world_stale closing_socket)
   \<and> pendingMessages (world_stale closing_socket) = [lights_pending]
   \<and> send_calls (service (processPendingMessages (world_stale closing_socket)))
       = [(outbound_of example_settings lights_pending, False)]
   \<and> wire (service (processPendingMessages (world_stale closing_socket))) = []
   \<and> pendingMessages (processPendingMessages (world_stale closing_socket)) = []
   \<and> messages (processPendingMessages (world_stale closing_socket))
       = [lights_message,
          \<lparr>msg_id = ''1700000040000'', msg_text = ''Processing your offline messages...'',
            isUser = False, msg_type = ''system'', timestamp = 1700000040000\<rparr>]
   \<and> visible (processPendingMessages (world_stale closing_socket))
       = visible (processPendingMessages (world_stale open_socket))"
proof -
  have w: "wsConnected (world_stale closing_socket)"
    "pendingMessages (world_stale closing_socket) = [lights_pending]"
    "settings (world_stale closing_socket) = example_settings"
    "messages (world_stale closing_socket) = [lights_message]"
    "now (world_stale closing_socket) = 1700000040000"
    "lapses (world_stale closing_socket) = []"
    by (simp_all add: world_stale_def world_offline_def)
  have svc: "service (world_stale closing_socket)
      = ws_idle\<lparr>socket := Some closing_socket, connected := True, pingInterval := Some 30000,
          lastPingTime := Some 1700000000000\<rparr>"
    by (simp add: world_stale_def)
  have sent: "ws_send m (ws_idle\<lparr>socket := Some closing_socket, connected := True,
        pingInterval := Some 30000, lastPingTime := Some 1700000000000\<rparr>)
      = (False, ws_idle\<lparr>socket := Some closing_socket, connected := True,
           pingInterval := Some 30000, lastPingTime := Some 1700000000000,
           send_calls := [(m, False)]\<rparr>)" for m
    by (simp add: ws_send_def ws_idle_def closing_socket_def)
  have same: "world_stale open_socket = (world_stale closing_socket)
       \<lparr>service := service (world_stale open_socket)\<rparr>"
    by (simp add: world_stale_def)
  have vis: "visible (processPendingMessages (world_stale closing_socket))
       = visible (processPendingMessages (world_stale open_socket))"
    by (metis same processPendingMessages_visible)
  have st: "processPendingMessages (world_stale closing_socket) =
      (snd (addMessage ''Processing your offline messages...'' False ''system'' None
              (world_stale closing_socket)))
        \<lparr>pendingMessages := [],
         service := ws_idle\<lparr>socket := Some closing_socket, connected := True,
           pingInterval := Some 30000, lastPingTime := Some 1700000000000,
           send_calls := [(outbound_of example_settings lights_pending, False)]\<rparr>,
         isProcessingAudio := True\<rparr>"
    unfolding processPendingMessages_closed [OF w(1,2)] by (simp add: w svc sent)
  have calls: "send_calls (service (processPendingMessages (world_stale closing_socket)))
       = [(outbound_of example_settings lights_pending, False)]"
    and wire: "wire (service (processPendingMessages (world_stale closing_socket))) = []"
    and queue: "pendingMessages (processPendingMessages (world_stale closing_socket)) = []"
    and log: "messages (processPendingMessages (world_stale closing_socket))
       = [lights_message,
          \<lparr>msg_id = ''1700000040000'', msg_text = ''Processing your offline messages...'',
            isUser = False, msg_type = ''system'', timestamp = 1700000040000\<rparr>]"
    unfolding st by (simp_all add: w addMessage_messages toString_example3 ws_idle_def)
  from w(1,2) calls wire queue log vis show ?thesis by blast
qed

text \<open>
  Claim C5, amended. When a drain pass takes the head entry and its send fails, the entry
  has left the queue and is not put back; nothing is transmitted; the log gains one
  system notice, ``Processing your offline messages...'', its earlier messages
  unchanged; the processing flag is set; and the cells the screens read do not depend on
  what the service did, so the failure is reported nowhere in them.
\<close>

theorem failed_drain_send:
  assumes "wsConnected w" and "pendingMessages w = p # ps"
    and "\<not> fst (ws_send (outbound_of (settings w) p) (service w))"
  shows "pendingMessages (processPendingMessages w) = ps
       \<and> wire (service (processPendingMessages w)) = wire (service w)
       \<and> send_calls (service (processPendingMessages w))
           = send_calls (service w) @ [(outbound_of (settings w) p, False)]
       \<and> (\<exists>notice. messages (processPendingMessages w) = messages w @ [notice]
             \<and> msg_text notice = ''Processing your offline messages...''
             \<and> msg_type notice = ''system'' \<and> \<not> isUser notice)
       \<and> isProcessingAudio (processPendingMessages w)
       \<and> (\<forall>svc. visible (processPendingMessages (w\<lparr>service := svc\<rparr>))
                  = visible (processPendingMessages w))"
proof -
  note st = processPendingMessages_closed [OF assms(1,2)]
  have queue: "pendingMessages (processPendingMessages w) = ps"
    and wire: "wire (service (processPendingMessages w)) = wire (service w)"
    and calls: "send_calls (service (processPendingMessages w))
           = send_calls (service w) @ [(outbound_of (settings w) p, False)]"
    and busy: "isProcessingAudio (processPendingMessages w)"
    unfolding st ws_send_failed [OF assms(3)] by simp_all
  have log: "\<exists>notice. messages (processPendingMessages w) = messages w @ [notice]
             \<and> msg_text notice = ''Processing your offline messages...''
             \<and> msg_type notice = ''system'' \<and> \<not> isUser notice"
    unfolding st by (simp add: addMessage_messages)
  from queue wire calls log busy processPendingMessages_visible [where w = w]
  show ?thesis by blast
qed

text \<open>
  The state of the counterexample satisfies the hypotheses.
\<close>

theorem failed_drain_send_witness:
  "wsConnected (world_stale closing_socket)
   \<and> pendingMessages (world_stale closing_socket) = lights_pending # []
   \<and> \<not> fst (ws_send (outbound_of (settings (world_stale closing_socket)) lights_pending)
              (service (world_stale closing_socket)))
   \<and> pendingMessages (processPendingMessages (world_stale closing_socket)) = []
   \<and> wire (service (processPendingMessages (world_stale closing_socket)))
       = wire (service (world_stale closing_socket))"
proof -
  have a: "wsConnected (world_stale closing_socket)"
    and b: "pendingMessages (world_stale closing_socket) = lights_pending # []"
    by (simp_all add: world_stale_def world_offline_def)
  have c: "\<not> fst (ws_send (outbound_of (settings (world_stale closing_socket)) lights_pending)
              (service (world_stale closing_socket)))"
    by (simp add: world_stale_def ws_send_def closing_socket_def ws_idle_def)
  from failed_drain_send [OF a b c] a b c show ?thesis by simp
qed

text \<open>
  Claim C8, evaluated where it fails. An audio message is submitted offline, and the
  clock does not move on during the call. The user message and the system notice that
  \<open>sendAudioToServer\<close> appends both get the id ``1700000000000'': two different
  messages of the log share one id.
\<close>

theorem message_id_collision:
  "map msg_id (messages (snd (sendAudioToServer ''UklGRg=='' ''turn on lights'' world_offline)))
     = [''1700000000000'', ''1700000000000'']
   \<and> map msg_text (messages (snd (sendAudioToServer ''UklGRg=='' ''turn on lights'' world_offline)))
     = [''turn on lights'', offline_notice]
   \<and> \<not> distinct (map msg_id (messages (snd (sendAudioToServer ''UklGRg=='' ''turn on lights'' world_offline))))"
proof -
  have w: "lapses world_offline = []" "\<not> wsConnected world_offline" "now world_offline = 1700000000000"
    "messages world_offline = []"
    by (simp_all add: world_offline_def)
  show ?thesis
    unfolding sendAudioToServer_idle [OF w(1,2)]
    by (simp add: w toString_example set_text_by_id_def or_else_def truthy_def)
qed

text \<open>
  Claim C9. Clearing the conversation is one update of one cell: the log becomes empty;
  the service (the session with its socket, timers and wire), the provider's connection
  flag, the queue of pending messages and the Bluetooth provider's state are what they
  were.
\<close>

theorem clearConversation_frame:
  "messages (fst (press_clear (w, b))) = []
   \<and> service (fst (press_clear (w, b))) = service w
   \<and> wsConnected (fst (press_clear (w, b))) = wsConnected w
   \<and> pendingMessages (fst (press_clear (w, b))) = pendingMessages w
   \<and> snd (press_clear (w, b)) = b
   \<and> press_clear (w, b) = (w\<lparr>messages := []\<rparr>, b)"
  by (simp add: press_clear_def clearConversation_def)

section \<open>Keepalive\<close>

lemmas ws_defs = ws_connect_def ws_disconnect_def scheduleReconnect_def upd_service_def
  startPingInterval_def handleOpen_def transport_open_def pingTick_def elapse_def
  handleMessage_def handleWebSocketMessage_def unresponsive_def

lemma keepalive_opened_eval:
  "service keepalive_opened = ws_idle\<lparr>socket := Some open_socket, connected := True,
       connecting := False, pingInterval := Some 30000, lastPingTime := Some 1700000000000\<rparr>"
  "now keepalive_opened = 1700000000000" "lapses keepalive_opened = []"
  by (simp_all add: keepalive_opened_def world_offline_def ws_defs ws_idle_def open_socket_def
        Date_now_def addMessage_def Let_def)

lemma keepalive_first_tick_eval:
  "service keepalive_first_tick = ws_idle\<lparr>socket := Some open_socket, connected := True,
       connecting := False, pingInterval := Some 30000, lastPingTime := Some 1700000000000,
       wire := [Ping]\<rparr>"
  "now keepalive_first_tick = 1700000030000" "lapses keepalive_first_tick = []"
  by (simp_all add: keepalive_first_tick_def keepalive_opened_eval pingTick_def elapse_def
        upd_service_def Date_now_def unresponsive_def open_socket_def ws_idle_def Let_def)

lemma keepalive_response_eval:
  "service keepalive_response = service keepalive_first_tick"
  "now keepalive_response = 1700000050000" "lapses keepalive_response = []"
  by (simp_all add: keepalive_response_def keepalive_first_tick_eval handleMessage_def
        handleWebSocketMessage_def elapse_def addMessage_def Date_now_def Let_def)

lemma keepalive_second_tick_eval:
  "service keepalive_second_tick = ws_idle\<lparr>socket := Some open_socket, connected := True,
       connecting := False, pingInterval := Some 30000, lastPingTime := Some 1700000000000,
       wire := [Ping, Ping]\<rparr>"
  "now keepalive_second_tick = 1700000060000" "lapses keepalive_second_tick = []"
  by (simp_all add: keepalive_second_tick_def keepalive_response_eval keepalive_first_tick_eval
        pingTick_def elapse_def
        upd_service_def Date_now_def unresponsive_def open_socket_def ws_idle_def Let_def)

lemma keepalive_third_tick_eval:
  "service keepalive_third_tick = ws_idle\<lparr>socket := Some \<lparr>readyState = WS_CONNECTING, send_raises = False\<rparr>,
       connected := False,
       connecting := True, pingInterval := None, lastPingTime := Some 1700000000000,
       wire := [Ping, Ping, Ping]\<rparr>"
  "now keepalive_third_tick = 1700000090000"
  by (simp_all add: keepalive_third_tick_def keepalive_second_tick_eval
        pingTick_def elapse_def ws_connect_def ws_disconnect_def
        upd_service_def Date_now_def unresponsive_def open_socket_def ws_idle_def Let_def)

text \<open>
  Claim C1, as stated, fails. The socket opens at 1700000000000. An assistant response
  arrives 50000 ms later and leaves the last-responsive time at the time of opening. The
  tick at 60000 ms finds the session connected; the tick at 90000 ms, 40000 ms after that
  response, force-closes it and starts a new connection.
\<close>

theorem keepalive_any_message_counterexample:
  "now keepalive_response = 1700000050000
   \<and> lastPingTime (service keepalive_response) = Some 1700000000000
   \<and> now keepalive_second_tick = 1700000060000
   \<and> connected (service keepalive_second_tick)
   \<and> now keepalive_third_tick = 1700000090000
   \<and> \<not> connected (service keepalive_third_tick)
   \<and> socket (service keepalive_third_tick) = Some \<lparr>readyState = WS_CONNECTING, send_raises = False\<rparr>"
  by (simp add: keepalive_response_eval keepalive_first_tick_eval keepalive_second_tick_eval
        keepalive_third_tick_eval)

lemma handleWebSocketMessage_service:
  "service (handleWebSocketMessage ev w) = service w"
  by (cases ev) (simp_all add: handleWebSocketMessage_def addMessage_def Date_now_def Let_def
        split: option.splits)

lemma handleMessage_lastPingTime:
  "lastPingTime (service (handleMessage ev w)) =
     (if ev = Pong then Some (now w) else lastPingTime (service w))"
proof (cases "ev = Pong")
  case True
  then show ?thesis
    by (simp add: handleMessage_def handleWebSocketMessage_def Date_now_def upd_service_def)
next
  case False
  then have "handleMessage ev w = handleWebSocketMessage ev w"
    by (cases ev) (simp_all add: handleMessage_def)
  with False show ?thesis by (simp add: handleWebSocketMessage_service)
qed

lemma handleOpen_keepalive:
  "pingInterval (service (handleOpen w)) = Some 30000"
  "lastPingTime (service (handleOpen w)) = Some (now w)"
  "connected (service (handleOpen w))"
  by (simp_all add: handleOpen_def startPingInterval_def upd_service_def Date_now_def
        addMessage_def Let_def)

lemma pingTick_open:
  assumes "pingInterval (service w) \<noteq> None" and "socket (service w) = Some sk"
    and "readyState sk = WS_OPEN" and "\<not> send_raises sk"
  shows "service (pingTick ctor w) =
           (if \<exists>l. lastPingTime (service w) = Some l \<and> l \<noteq> 0 \<and> l + 60000 < now w
            then ws_connect ctor (ws_disconnect ((service w)\<lparr>wire := wire (service w) @ [Ping]\<rparr>))
            else (service w)\<lparr>wire := wire (service w) @ [Ping]\<rparr>)"
  using assms
  by (auto simp: pingTick_def upd_service_def Date_now_def unresponsive_def Let_def
        split: option.splits)

text \<open>
  Claim C1, amended. Opening the socket starts a ping interval of 30000 ms and sets the
  last-responsive time to the time of opening. An inbound message sets it again only if it
  is a pong; every other inbound message leaves it alone. A tick of the interval on an
  open socket sends a ping; if the last-responsive time is set and more than 60000 ms
  have passed since, the tick also force-closes the session (not connected, interval
  cleared) and, the service having a server address, starts a new connection at once, or
  schedules a reconnect after 5000 ms when the socket cannot be created; otherwise the
  ping is all the tick does.
\<close>

theorem keepalive_pong_only:
  "pingInterval (service (handleOpen w)) = Some 30000
   \<and> lastPingTime (service (handleOpen w)) = Some (now w)
   \<and> lastPingTime (service (handleMessage ev w)) =
       (if ev = Pong then Some (now w) else lastPingTime (service w))
   \<and> (pingInterval (service w) \<noteq> None \<and> socket (service w) = Some sk
        \<and> readyState sk = WS_OPEN \<and> \<not> send_raises sk \<longrightarrow>
       wire (service (pingTick ctor w)) = wire (service w) @ [Ping]
       \<and> (if \<exists>l. lastPingTime (service w) = Some l \<and> l \<noteq> 0 \<and> l + 60000 < now w
          then \<not> connected (service (pingTick ctor w))
               \<and> pingInterval (service (pingTick ctor w)) = None
               \<and> (url (service w) \<noteq> None \<and> url (service w) \<noteq> Some [] \<longrightarrow>
                    (case ctor of
                       Created r \<Rightarrow>
                         connecting (service (pingTick ctor w))
                         \<and> socket (service (pingTick ctor w))
                             = Some \<lparr>readyState = WS_CONNECTING, send_raises = r\<rparr>
                     | CtorRaises \<Rightarrow>
                         socket (service (pingTick ctor w)) = None
                         \<and> reconnectTimeout (service (pingTick ctor w)) = Some 5000))
          else service (pingTick ctor w) = (service w)\<lparr>wire := wire (service w) @ [Ping]\<rparr>))"
proof -
  have tick: "wire (service (pingTick ctor w)) = wire (service w) @ [Ping]
       \<and> (if \<exists>l. lastPingTime (service w) = Some l \<and> l \<noteq> 0 \<and> l + 60000 < now w
          then \<not> connected (service (pingTick ctor w))
               \<and> pingInterval (service (pingTick ctor w)) = None
               \<and> (url (service w) \<noteq> None \<and> url (service w) \<noteq> Some [] \<longrightarrow>
                    (case ctor of
                       Created r \<Rightarrow>
                         connecting (service (pingTick ctor w))
                         \<and> socket (service (pingTick ctor w))
                             = Some \<lparr>readyState = WS_CONNECTING, send_raises = r\<rparr>
                     | CtorRaises \<Rightarrow>
                         socket (service (pingTick ctor w)) = None
                         \<and> reconnectTimeout (service (pingTick ctor w)) = Some 5000))
          else service (pingTick ctor w) = (service w)\<lparr>wire := wire (service w) @ [Ping]\<rparr>)"
    if "pingInterval (service w) \<noteq> None" "socket (service w) = Some sk"
       "readyState sk = WS_OPEN" "\<not> send_raises sk"
  proof (cases "\<exists>l. lastPingTime (service w) = Some l \<and> l \<noteq> 0 \<and> l + 60000 < now w")
    case True
    have sv: "service (pingTick ctor w) =
        ws_connect ctor (ws_disconnect ((service w)\<lparr>wire := wire (service w) @ [Ping]\<rparr>))"
      unfolding pingTick_open [OF that, of ctor] by (simp only: True if_True)
    have "wire (service (pingTick ctor w)) = wire (service w) @ [Ping]"
      "\<not> connected (service (pingTick ctor w))"
      "pingInterval (service (pingTick ctor w)) = None"
      unfolding sv
      by (cases ctor; simp add: ws_connect_def ws_disconnect_def scheduleReconnect_def Let_def)+
    moreover have "url (service w) \<noteq> None \<and> url (service w) \<noteq> Some [] \<longrightarrow> (case ctor of
          Created r \<Rightarrow>
            connecting (service (pingTick ctor w))
            \<and> socket (service (pingTick ctor w))
                = Some \<lparr>readyState = WS_CONNECTING, send_raises = r\<rparr>
        | CtorRaises \<Rightarrow>
            socket (service (pingTick ctor w)) = None
            \<and> reconnectTimeout (service (pingTick ctor w)) = Some 5000)"
      unfolding sv
      by (cases ctor) (simp_all add: ws_connect_def ws_disconnect_def scheduleReconnect_def Let_def)
    ultimately show ?thesis by (simp only: True if_True simp_thms)
  next
    case False
    have sv: "service (pingTick ctor w) = (service w)\<lparr>wire := wire (service w) @ [Ping]\<rparr>"
      unfolding pingTick_open [OF that, of ctor] by (simp only: False if_False)
    have "wire (service (pingTick ctor w)) = wire (service w) @ [Ping]"
      unfolding sv by simp
    with sv show ?thesis by (simp only: False if_False simp_thms)
  qed
  with handleOpen_keepalive(1,2) [of w] handleMessage_lastPingTime [of ev w] show ?thesis
    by blast
qed

text \<open>
  The third tick of the run above: the socket is open, and no pong has come for 90000 ms.
\<close>

theorem keepalive_pong_only_witness:
  "pingInterval (service (elapse 30000 keepalive_second_tick)) \<noteq> None
   \<and> socket (service (elapse 30000 keepalive_second_tick)) = Some open_socket
   \<and> readyState open_socket = WS_OPEN \<and> \<not> send_raises open_socket
   \<and> lastPingTime (service (elapse 30000 keepalive_second_tick)) = Some 1700000000000
   \<and> now (elapse 30000 keepalive_second_tick) = 1700000090000
   \<and> \<not> connected (service (pingTick (Created False) (elapse 30000 keepalive_second_tick)))
   \<and> socket (service (pingTick (Created False) (elapse 30000 keepalive_second_tick)))
       = Some \<lparr>readyState = WS_CONNECTING, send_raises = False\<rparr>"
proof -
  have s: "service (elapse 30000 keepalive_second_tick) = service keepalive_second_tick"
    "now (elapse 30000 keepalive_second_tick) = 1700000090000"
    by (simp_all add: elapse_def keepalive_second_tick_eval)
  have h: "pingInterval (service (elapse 30000 keepalive_second_tick)) \<noteq> None"
    "socket (service (elapse 30000 keepalive_second_tick)) = Some open_socket"
    "readyState open_socket = WS_OPEN" "\<not> send_raises open_socket"
    "lastPingTime (service (elapse 30000 keepalive_second_tick)) = Some 1700000000000"
    "url (service (elapse 30000 keepalive_second_tick)) = Some ''wss://airassist-server.example.com/ws''"
    unfolding s by (simp_all add: keepalive_second_tick_eval open_socket_def ws_idle_def)
  from keepalive_pong_only [of "elapse 30000 keepalive_second_tick" Pong open_socket "Created False"]
  show ?thesis
    using h s(2) by simp
qed

section \<open>Silence detection\<close>

text \<open>While frames keep coming less than 2000 ms apart, the timer never runs.\<close>

lemma run_frames_close:
  assumes "gaps_below 2000 (map fst frs)" and "frs \<noteq> []"
    and "silenceTimer s = None \<or> (\<exists>d. silenceTimer s = Some d \<and> fst (hd frs) < d)"
  shows "silence_calls (run_frames c thr frs s) = silence_calls s
       \<and> silenceTimer (run_frames c thr frs s) = Some (fst (last frs) + 2000)
       \<and> isRecording (run_frames c thr frs s) = isRecording s"
  using assms
proof (induction frs arbitrary: s)
  case Nil
  then show ?case by simp
next
  case (Cons fr frs)
  let ?s1 = "frame_arrives c thr fr s"
  from Cons.prems(3) have quiet: "run_timers c (fst fr) s = s"
    by (auto simp: run_timers_def)
  then have s1: "?s1 = s\<lparr>silenceTimer := Some (fst fr + 2000)\<rparr>"
    by (simp add: frame_arrives_def on_data_def)
  have step: "run_frames c thr (fr # frs) s = run_frames c thr frs ?s1"
    by (simp add: run_frames_def)
  show ?case
  proof (cases frs)
    case Nil
    with s1 step show ?thesis by (simp add: run_frames_def)
  next
    case (Cons g gs)
    with Cons.prems(1) have g: "gaps_below 2000 (map fst frs)" "fst g < fst fr + 2000"
      by simp_all
    have "silenceTimer ?s1 = None \<or> (\<exists>d. silenceTimer ?s1 = Some d \<and> fst (hd frs) < d)"
      using s1 g(2) Cons by simp
    from Cons.IH [OF g(1) _ this] Cons s1 step show ?thesis by simp
  qed
qed

text \<open>
  Claim C3, amended. Every data frame restarts the timer of 2000 ms, whatever its energy
  and whatever the threshold. In a session whose frames arrive less than 2000 ms apart
  the callback has not run when the last frame has arrived; once 2000 ms have passed
  after the last frame it has run exactly once, and it has still run once at any later
  time at which no further frame has arrived.
\<close>

theorem silence_timer_any_frame:
  assumes "gaps_below 2000 (map fst frs)" and "frs \<noteq> []"
    and "fst (last frs) + 2000 \<le> t" and "t \<le> t'"
  shows "on_data thr u e s = on_data thr' u e' s
       \<and> silenceTimer (on_data thr u e s) = Some (u + 2000)
       \<and> silence_calls (run_frames c thr frs startRecording_session) = 0
       \<and> silence_calls (idle_until c t (run_frames c thr frs startRecording_session)) = 1
       \<and> silence_calls (idle_until c t' (idle_until c t
            (run_frames c thr frs startRecording_session))) = 1"
proof -
  let ?s = "run_frames c thr frs startRecording_session"
  have "silenceTimer startRecording_session = None
        \<or> (\<exists>d. silenceTimer startRecording_session = Some d \<and> fst (hd frs) < d)"
    by (simp add: startRecording_session_def)
  from run_frames_close [OF assms(1,2) this, of c thr]
  have fr: "silence_calls ?s = 0" "silenceTimer ?s = Some (fst (last frs) + 2000)" "isRecording ?s"
    by (simp_all add: startRecording_session_def)
  have once: "silence_calls (idle_until c t ?s) = 1" "silenceTimer (idle_until c t ?s) = None"
    using fr assms(3)
    by (simp_all add: idle_until_def run_timers_def silence_timeout_def stopRecording_timer_def Let_def)
  then have "idle_until c t' (idle_until c t ?s) = idle_until c t ?s"
    by (simp add: idle_until_def run_timers_def)
  with fr(1) once(1) show ?thesis by (simp add: on_data_def)
qed

text \<open>
  Six frames, 1000 ms apart, then silence on the line.
\<close>

theorem silence_timer_any_frame_witness:
  "gaps_below 2000 (map fst quiet_frames) \<and> quiet_frames \<noteq> []
   \<and> fst (last quiet_frames) + 2000 \<le> 7000 \<and> (7000::nat) \<le> 60000
   \<and> silence_calls (run_frames False 0.2 quiet_frames startRecording_session) = 0
   \<and> silence_calls (idle_until False 7000
        (run_frames False 0.2 quiet_frames startRecording_session)) = 1
   \<and> silence_calls (idle_until False 60000 (idle_until False 7000
        (run_frames False 0.2 quiet_frames startRecording_session))) = 1"
proof -
  have a: "gaps_below 2000 (map fst quiet_frames)" and b: "quiet_frames \<noteq> []"
    and c: "fst (last quiet_frames) + 2000 \<le> 7000" and d: "(7000::nat) \<le> 60000"
    by (simp_all add: quiet_frames_def)
  from silence_timer_any_frame [OF a b c d, where thr = "0.2" and c = False] a b c d
  show ?thesis by simp
qed

lemma quiet_chunk_silent: "isSilence quiet_chunk"
  by (simp add: isSilence_def quiet_chunk_def)

text \<open>
  Claim C3, as stated, fails. Six frames arrive 1000 ms apart, none above the threshold
  of 0.2, so for 5000 ms no frame exceeds the threshold; the callback has not run at
  5999 ms, and the second frame, below the threshold, has moved the deadline from 2000
  to 3000. The native recording loop, for its part, raises its silence event once for
  every quiet buffer: twice for two.
\<close>

theorem silence_once_counterexample:
  "map snd quiet_frames = [0, 0, 0, 0, 0, 0] \<and> \<not> (0::real) > 0.2
   \<and> map fst quiet_frames = [0, 1000, 2000, 3000, 4000, 5000]
   \<and> silence_calls (idle_until False 5999
        (run_frames False 0.2 quiet_frames startRecording_session)) = 0
   \<and> silenceTimer (frame_arrives False 0.2 (1000, 0)
        (frame_arrives False 0.2 (0, 0) startRecording_session)) = Some 3000
   \<and> writeAudioDataToFile_events [quiet_chunk, quiet_chunk] = 2"
  by (simp add: quiet_frames_def run_frames_def frame_arrives_def on_data_def run_timers_def
        idle_until_def startRecording_session_def writeAudioDataToFile_events_def
        quiet_chunk_silent) (simp add: quiet_chunk_def)

section \<open>The audio clip\<close>

lemma convertPcmToWav_length: "length (convertPcmToWav pcm) = 44 + length pcm"
  by (simp add: convertPcmToWav_def intToByteArray_def shortToByteArray_def toByteArray_def Let_def)

lemma convertPcmToWav_payload: "drop 44 (convertPcmToWav pcm) = pcm"
  by (simp add: convertPcmToWav_def intToByteArray_def shortToByteArray_def toByteArray_def Let_def)

lemma header_example:
  "take 44 (convertPcmToWav two_samples) =
     [0x52, 0x49, 0x46, 0x46, 40, 0, 0, 0, 0x57, 0x41, 0x56, 0x45,
      0x66, 0x6D, 0x74, 0x20, 16, 0, 0, 0, 1, 0, 1, 0,
      0x44, 0xAC, 0, 0, 0x88, 0x58, 0x01, 0, 2, 0, 16, 0,
      0x64, 0x61, 0x74, 0x61, 4, 0, 0, 0]"
  by (simp add: convertPcmToWav_def intToByteArray_def shortToByteArray_def toByteArray_def
        Let_def two_samples_def SAMPLE_RATE_def)

lemma le32_intToByteArray: "le32 (intToByteArray v) = v"
proof (rule bit_word_eqI)
  fix n
  assume "n < LENGTH(32)"
  then have n: "n < 32" by simp
  consider "n < 8" | "8 \<le> n" "n < 16" | "16 \<le> n" "n < 24" | "24 \<le> n" by linarith
  then show "bit (le32 (intToByteArray v)) n \<longleftrightarrow> bit v n"
  proof cases
    case 1
    then show ?thesis
      by (auto simp: le32_def intToByteArray_def bit_simps)
  next
    case 2
    then show ?thesis
      by (auto simp: le32_def intToByteArray_def bit_simps)
  next
    case 3
    then show ?thesis
      by (auto simp: le32_def intToByteArray_def bit_simps)
  next
    case 4
    with n show ?thesis
      by (auto simp: le32_def intToByteArray_def bit_simps)
  qed
qed

lemma unat_payload_length: "n < 2 ^ 31 \<Longrightarrow> unat (word_of_nat n :: 32 word) = n"
  by (simp add: unsigned_of_nat take_bit_nat_eq_self)

lemma header_fields:
  "field 0 4 (convertPcmToWav pcm) = toByteArray ''RIFF''"
  "field 8 4 (convertPcmToWav pcm) = toByteArray ''WAVE''"
  "field 12 4 (convertPcmToWav pcm) = toByteArray ''fmt ''"
  "field 36 4 (convertPcmToWav pcm) = toByteArray ''data''"
  "field 20 2 (convertPcmToWav pcm) = shortToByteArray 1"
  "field 22 2 (convertPcmToWav pcm) = shortToByteArray 1"
  "field 24 4 (convertPcmToWav pcm) = intToByteArray SAMPLE_RATE"
  "field 34 2 (convertPcmToWav pcm) = shortToByteArray 16"
  "field 40 4 (convertPcmToWav pcm) = intToByteArray (word_of_nat (length pcm))"
  by (simp_all add: field_def convertPcmToWav_def intToByteArray_def shortToByteArray_def
        toByteArray_def Let_def)

lemma header_constants:
  "unat (le16 (shortToByteArray 1)) = 1" "unat (le16 (shortToByteArray 16)) = 16"
  "unat SAMPLE_RATE = 44100"
  by (simp_all add: le16_def shortToByteArray_def SAMPLE_RATE_def)


text \<open>
  Claim C7. For every recorded payload that a byte array can hold (fewer than
  \<open>2 ^ 31\<close> bytes), the clip that finalising the capture produces decodes to format
  tag 1, one channel, 44100 Hz, 16 bits, a payload length equal to the number of recorded
  bytes, and the recorded bytes themselves as payload. So the decoded clip has the sample
  rate of the capture and as many frames as were captured.
\<close>

theorem clip_round_trip:
  assumes "length pcmData < 2 ^ 31"
  shows "decode_clip (convertPcmToWav pcmData) =
           Some \<lparr>clip_format = 1, clip_channels = 1, clip_sampleRate = 44100,
                  clip_bitsPerSample = 16, clip_payloadLength = length pcmData,
                  clip_payload = pcmData\<rparr>
       \<and> map_option clip_sampleRate (decode_clip (convertPcmToWav pcmData)) = Some (unat SAMPLE_RATE)
       \<and> map_option clip_frames (decode_clip (convertPcmToWav pcmData))
           = Some (captured_frames pcmData)"
proof -
  have n: "unat (le32 (field 40 4 (convertPcmToWav pcmData))) = length pcmData"
    by (simp add: header_fields le32_intToByteArray unat_payload_length [OF assms])
  have "decode_clip (convertPcmToWav pcmData) =
           Some \<lparr>clip_format = 1, clip_channels = 1, clip_sampleRate = 44100,
                  clip_bitsPerSample = 16, clip_payloadLength = length pcmData,
                  clip_payload = pcmData\<rparr>"
    unfolding decode_clip_def Let_def n
    by (simp add: header_fields header_constants le32_intToByteArray convertPcmToWav_length
          convertPcmToWav_payload)
  then show ?thesis
    by (simp add: clip_frames_def captured_frames_def header_constants)
qed

text \<open>
  A capture of two samples.
\<close>

theorem clip_round_trip_witness:
  "length two_samples < 2 ^ 31
   \<and> decode_clip (convertPcmToWav two_samples) =
       Some \<lparr>clip_format = 1, clip_channels = 1, clip_sampleRate = 44100,
              clip_bitsPerSample = 16, clip_payloadLength = 4, clip_payload = two_samples\<rparr>
   \<and> map_option clip_frames (decode_clip (convertPcmToWav two_samples)) = Some 2"
proof -
  have a: "length two_samples < 2 ^ 31" by (simp add: two_samples_def)
  have b: "length two_samples = 4" "captured_frames two_samples = 2"
    by (simp_all add: two_samples_def captured_frames_def)
  from clip_round_trip [OF a] a show ?thesis unfolding b by auto
qed

end
